theory Spec2Isabelle
  imports Complex_Main "HOL-Library.Sublist"
begin

section \<open>Review Grid State: the import store (state/store.ts)\<close>

text \<open>
  A JavaScript value held in a row: the store declares \<^verbatim>\<open>[key: string]: string | number\<close>.
  Numbers only occur as row indices, which are array positions.
\<close>

datatype jsval = JNum nat | JStr string

text \<open>
  \<^verbatim>\<open>interface CSVRow\<close>. The field \<^verbatim>\<open>_rowIndex\<close> is written \<open>u_rowIndex\<close> (an
  identifier cannot start with an underscore). It is declared a number, but the computed
  key of \<^verbatim>\<open>{ ...row, [field]: value }\<close> can store a string there, so it is a \<open>jsval\<close>.
  The seven data fields only ever receive strings. \<open>extra\<close> holds the passthrough columns
  of the index signature.
\<close>

record CSVRow =
  u_rowIndex :: jsval
  case_id :: string
  applicant_name :: string
  dob :: string
  email :: string
  phone :: string
  category :: string
  priority :: string
  extra :: "string \<rightharpoonup> string"

text \<open>\<^verbatim>\<open>{ ...row, [field]: value }\<close> with \<^verbatim>\<open>value: string\<close>: a copy of the row with one key rebound.\<close>

definition set_field :: "CSVRow \<Rightarrow> string \<Rightarrow> string \<Rightarrow> CSVRow" where
  "set_field row fld v =
     (if fld = ''_rowIndex'' then row\<lparr>u_rowIndex := JStr v\<rparr>
      else if fld = ''case_id'' then row\<lparr>case_id := v\<rparr>
      else if fld = ''applicant_name'' then row\<lparr>applicant_name := v\<rparr>
      else if fld = ''dob'' then row\<lparr>dob := v\<rparr>
      else if fld = ''email'' then row\<lparr>email := v\<rparr>
      else if fld = ''phone'' then row\<lparr>phone := v\<rparr>
      else if fld = ''category'' then row\<lparr>category := v\<rparr>
      else if fld = ''priority'' then row\<lparr>priority := v\<rparr>
      else row\<lparr>extra := (extra row)(fld \<mapsto> v)\<rparr>)"

text \<open>\<^verbatim>\<open>row[key]\<close>: the value bound to a key, \<open>None\<close> for \<^verbatim>\<open>undefined\<close>.\<close>

definition get_field :: "CSVRow \<Rightarrow> string \<Rightarrow> jsval option" where
  "get_field row fld =
     (if fld = ''_rowIndex'' then Some (u_rowIndex row)
      else if fld = ''case_id'' then Some (JStr (case_id row))
      else if fld = ''applicant_name'' then Some (JStr (applicant_name row))
      else if fld = ''dob'' then Some (JStr (dob row))
      else if fld = ''email'' then Some (JStr (email row))
      else if fld = ''phone'' then Some (JStr (phone row))
      else if fld = ''category'' then Some (JStr (category row))
      else if fld = ''priority'' then Some (JStr (priority row))
      else map_option JStr (extra row fld))"

text \<open>\<^verbatim>\<open>interface ValidationError\<close> (lib/validations.ts); \<open>errField\<close> and \<open>errValue\<close> are the
  source's \<^verbatim>\<open>field\<close> and \<^verbatim>\<open>value\<close>.\<close>

record ValidationError =
  row :: nat
  errField :: string
  errValue :: "string option"
  message :: string

record ImportProgress =
  total :: nat
  processed :: nat
  success :: nat
  failed :: nat
  currentBatch :: nat
  totalBatches :: nat

text \<open>\<^verbatim>\<open>interface BatchResult\<close>; \<open>ok\<close> is the source's \<^verbatim>\<open>success\<close> flag, \<open>error\<close> and
  \<open>createdId\<close> are the optional \<^verbatim>\<open>error\<close> and \<^verbatim>\<open>id\<close>.\<close>

record BatchResult =
  ok :: bool
  caseId :: string
  error :: "string option"
  createdId :: "string option"

record ImportState =
  rawData :: "CSVRow list"
  headers :: "string list"
  columnMappings :: "(string \<times> string) list"
  filename :: "string option"
  validationErrors :: "ValidationError list"
  isValidating :: bool
  importId :: "string option"
  progress :: "ImportProgress option"
  batchResults :: "BatchResult list"
  isSubmitting :: bool

definition initialState :: ImportState where
  "initialState =
     \<lparr>rawData = [], headers = [], columnMappings = [], filename = None,
      validationErrors = [], isValidating = False, importId = None, progress = None,
      batchResults = [], isSubmitting = False\<rparr>"

text \<open>\<^verbatim>\<open>data.map((row, index) => ({ ...row, _rowIndex: index }))\<close>, \<open>index\<close> counting from \<open>k\<close>.\<close>

fun assignRowIndex :: "nat \<Rightarrow> CSVRow list \<Rightarrow> CSVRow list" where
  "assignRowIndex k [] = []"
| "assignRowIndex k (r # rs) = r\<lparr>u_rowIndex := JNum k\<rparr> # assignRowIndex (Suc k) rs"

definition setRawData :: "CSVRow list \<Rightarrow> string list \<Rightarrow> string \<Rightarrow> ImportState \<Rightarrow> ImportState" where
  "setRawData data hs fname s =
     s\<lparr>rawData := assignRowIndex 0 data, headers := hs, filename := Some fname,
       validationErrors := [], batchResults := [], progress := None\<rparr>"

text \<open>\<^verbatim>\<open>row._rowIndex === rowIndex\<close> compares JavaScript values, so the index argument is a
  \<open>jsval\<close>: the callers pass on whatever a row's \<^verbatim>\<open>_rowIndex\<close> holds.\<close>

definition updateRow :: "jsval \<Rightarrow> string \<Rightarrow> string \<Rightarrow> ImportState \<Rightarrow> ImportState" where
  "updateRow rowIndex fld v s =
     s\<lparr>rawData := map (\<lambda>r. if u_rowIndex r = rowIndex then set_field r fld v else r)
                       (rawData s)\<rparr>"

text \<open>One element of the edit list of \<^verbatim>\<open>updateMultipleRows\<close>; \<open>newValue\<close> is the source's
  \<^verbatim>\<open>value\<close>.\<close>

record RowUpdate =
  rowIndex :: jsval
  field :: string
  newValue :: string

text \<open>\<^verbatim>\<open>Array.prototype.findIndex\<close>, with \<open>None\<close> for the result \<^verbatim>\<open>-1\<close>.\<close>

fun findIndex :: "('a \<Rightarrow> bool) \<Rightarrow> 'a list \<Rightarrow> nat option" where
  "findIndex P [] = None"
| "findIndex P (x # xs) = (if P x then Some 0 else map_option Suc (findIndex P xs))"

text \<open>The \<^verbatim>\<open>for (const update of updates)\<close> loop over the copied array \<^verbatim>\<open>newData\<close>.\<close>

fun applyUpdates :: "CSVRow list \<Rightarrow> RowUpdate list \<Rightarrow> CSVRow list" where
  "applyUpdates newData [] = newData"
| "applyUpdates newData (u # us) =
     (case findIndex (\<lambda>r. u_rowIndex r = rowIndex u) newData of
        None \<Rightarrow> applyUpdates newData us
      | Some index \<Rightarrow>
          applyUpdates (newData[index := set_field (newData ! index) (field u) (newValue u)]) us)"

definition updateMultipleRows :: "RowUpdate list \<Rightarrow> ImportState \<Rightarrow> ImportState" where
  "updateMultipleRows updates s = s\<lparr>rawData := applyUpdates (rawData s) updates\<rparr>"

definition addBatchResults :: "BatchResult list \<Rightarrow> ImportState \<Rightarrow> ImportState" where
  "addBatchResults results s = s\<lparr>batchResults := batchResults s @ results\<rparr>"

text \<open>A row as the dropzone builds it before \<^verbatim>\<open>setRawData\<close>, used in the concrete instances.\<close>

definition sampleRow :: "string \<Rightarrow> string \<Rightarrow> CSVRow" where
  "sampleRow cid name =
     \<lparr>u_rowIndex = JNum 0, case_id = cid, applicant_name = name, dob = ''1990-03-14'',
      email = '''', phone = '''', category = ''TAX'', priority = ''LOW'', extra = Map.empty\<rparr>"

text \<open>The value the last edit of a list gives to a (row index, field) pair, if any edit names it.\<close>

definition lastEdit :: "RowUpdate list \<Rightarrow> jsval \<Rightarrow> string \<Rightarrow> string option" where
  "lastEdit us i g =
     (case rev (filter (\<lambda>u. rowIndex u = i \<and> field u = g) us) of
        [] \<Rightarrow> None
      | e # es \<Rightarrow> Some (newValue e))"

text \<open>Concrete instances: a store holding two installed rows, and a list of edits in which
  two edits name the same row and field.\<close>

definition twoRows :: ImportState where
  "twoRows = setRawData [sampleRow ''C-1'' ''Ann'', sampleRow ''C-2'' ''Bob''] [] ''cases.csv'' initialState"

definition phoneEdits :: "RowUpdate list" where
  "phoneEdits =
     [\<lparr>rowIndex = JNum 0, field = ''priority'', newValue = ''HIGH''\<rparr>,
      \<lparr>rowIndex = JNum 1, field = ''phone'', newValue = ''111''\<rparr>,
      \<lparr>rowIndex = JNum 1, field = ''phone'', newValue = ''222''\<rparr>]"

section \<open>String helpers of JavaScript\<close>

text \<open>
  Strings are lists of 8-bit characters, read as Latin-1. \<^verbatim>\<open>String.prototype.trim\<close> and the regular expression
  class \<^verbatim>\<open>\s\<close> agree on what white space is; within one byte that is tab, line feed, vertical
  tab, form feed, carriage return, space and the no-break space.
\<close>

definition isWhitespace :: "char \<Rightarrow> bool" where
  "isWhitespace c \<longleftrightarrow>
     c \<in> set [CHR 0x09, CHR 0x0A, CHR 0x0B, CHR 0x0C, CHR 0x0D, CHR 0x20, CHR 0xA0]"

definition trim :: "string \<Rightarrow> string" where
  "trim s = rev (dropWhile isWhitespace (rev (dropWhile isWhitespace s)))"

text \<open>
  \<^verbatim>\<open>toUpperCase\<close> and \<^verbatim>\<open>toLowerCase\<close> on the characters of one byte, read as Latin-1: the letters
  of ASCII and the accented letters 0xE0 to 0xF6 and 0xF8 to 0xFE with their capitals 0xC0 to
  0xD6 and 0xD8 to 0xDE. The capital of the sharp s (0xDF) is the two letters "SS", so the
  capital of a character is a string. The capitals of the micro sign (0xB5) and of the y with
  diaeresis (0xFF) are not characters of one byte; such strings are outside the model, which
  keeps these two characters.
\<close>

definition lowerLetters :: string where
  "lowerLetters = ''abcdefghijklmnopqrstuvwxyz'' @
     [CHR 0xE0, CHR 0xE1, CHR 0xE2, CHR 0xE3, CHR 0xE4, CHR 0xE5, CHR 0xE6, CHR 0xE7,
      CHR 0xE8, CHR 0xE9, CHR 0xEA, CHR 0xEB, CHR 0xEC, CHR 0xED, CHR 0xEE, CHR 0xEF,
      CHR 0xF0, CHR 0xF1, CHR 0xF2, CHR 0xF3, CHR 0xF4, CHR 0xF5, CHR 0xF6,
      CHR 0xF8, CHR 0xF9, CHR 0xFA, CHR 0xFB, CHR 0xFC, CHR 0xFD, CHR 0xFE]"

definition upperLetters :: string where
  "upperLetters = ''ABCDEFGHIJKLMNOPQRSTUVWXYZ'' @
     [CHR 0xC0, CHR 0xC1, CHR 0xC2, CHR 0xC3, CHR 0xC4, CHR 0xC5, CHR 0xC6, CHR 0xC7,
      CHR 0xC8, CHR 0xC9, CHR 0xCA, CHR 0xCB, CHR 0xCC, CHR 0xCD, CHR 0xCE, CHR 0xCF,
      CHR 0xD0, CHR 0xD1, CHR 0xD2, CHR 0xD3, CHR 0xD4, CHR 0xD5, CHR 0xD6,
      CHR 0xD8, CHR 0xD9, CHR 0xDA, CHR 0xDB, CHR 0xDC, CHR 0xDD, CHR 0xDE]"

definition toUpperCase :: "char \<Rightarrow> string" where
  "toUpperCase c =
     (if c = CHR 0xDF then ''SS''
      else case map_of (zip lowerLetters upperLetters) c of Some d \<Rightarrow> [d] | None \<Rightarrow> [c])"

definition toLowerCase :: "char \<Rightarrow> char" where
  "toLowerCase c = (case map_of (zip upperLetters lowerLetters) c of Some d \<Rightarrow> d | None \<Rightarrow> c)"

text \<open>\<^verbatim>\<open>s.split(/\s+/)\<close>: the pieces between maximal runs of white space; a string that starts
  or ends with white space yields an empty first or last piece, and the empty string yields
  one empty piece.\<close>

function splitWhitespace :: "string \<Rightarrow> string list" where
  "splitWhitespace s =
     (let piece = takeWhile (\<lambda>c. \<not> isWhitespace c) s;
          rest = dropWhile (\<lambda>c. \<not> isWhitespace c) s
      in if rest = [] then [piece] else piece # splitWhitespace (dropWhile isWhitespace rest))"
  by pat_completeness auto
termination
proof (relation "measure length")
  show "wf (measure length)" by simp
next
  fix s :: string and piece rest
  assume rest: "rest = dropWhile (\<lambda>c. \<not> isWhitespace c) s" and ne: "rest \<noteq> []"
  have "length (dropWhile isWhitespace rest) \<le> length rest"
    by (rule length_dropWhile_le)
  moreover from ne obtain c cs where c: "rest = c # cs" by (cases rest) auto
  from ne rest have "dropWhile (\<lambda>c. \<not> isWhitespace c) s \<noteq> []" by simp
  then have "\<not> \<not> isWhitespace (hd (dropWhile (\<lambda>c. \<not> isWhitespace c) s))"
    by (rule hd_dropWhile)
  with c rest have "isWhitespace c" by (metis list.sel(1))
  with c have "length (dropWhile isWhitespace rest) < length rest"
    using length_dropWhile_le [of isWhitespace cs] by simp
  moreover have "length rest \<le> length s"
    unfolding rest by (rule length_dropWhile_le)
  ultimately show "(dropWhile isWhitespace rest, s) \<in> measure length" by simp
qed

text \<open>\<^verbatim>\<open>pieces.join(" ")\<close>.\<close>

fun joinSpace :: "string list \<Rightarrow> string" where
  "joinSpace [] = []"
| "joinSpace [w] = w"
| "joinSpace (w # ws) = w @ '' '' @ joinSpace ws"

section \<open>Normalisation helpers (lib/validations.ts)\<close>

text \<open>
  The two functions that \<^verbatim>\<open>normalizePhone\<close> imports from the package libphonenumber-js, which
  is not part of the repository: they are parameters of the model. The second argument is
  the default country, absent in the one-argument calls. \<open>None\<close> stands for a thrown
  exception. \<open>parseE164\<close> is \<^verbatim>\<open>parsePhoneNumber(s, country).format("E.164")\<close>.
\<close>

record PhoneLib =
  isValidPhoneNumber :: "string \<Rightarrow> string option \<Rightarrow> bool option"
  parseE164 :: "string \<Rightarrow> string option \<Rightarrow> string option"

text \<open>The result \<open>None\<close> is \<^verbatim>\<open>null\<close>; an exception of the library ends in the \<^verbatim>\<open>catch\<close> block and
  so in the final \<^verbatim>\<open>return null\<close>.\<close>

definition normalizePhone :: "PhoneLib \<Rightarrow> string \<Rightarrow> string option" where
  "normalizePhone lib ph =
     (if ph = [] \<or> trim ph = [] then None
      else let cleaned = trim ph in
        case isValidPhoneNumber lib cleaned (Some ''IN'') of
          None \<Rightarrow> None
        | Some True \<Rightarrow> parseE164 lib cleaned (Some ''IN'')
        | Some False \<Rightarrow>
            (case isValidPhoneNumber lib cleaned None of
               None \<Rightarrow> None
             | Some True \<Rightarrow> parseE164 lib cleaned None
             | Some False \<Rightarrow> None))"

text \<open>\<^verbatim>\<open>word.charAt(0).toUpperCase() + word.slice(1).toLowerCase()\<close>.\<close>

fun capitalize :: "string \<Rightarrow> string" where
  "capitalize [] = []"
| "capitalize (c # cs) = toUpperCase c @ map toLowerCase cs"

definition titleCase :: "string \<Rightarrow> string" where
  "titleCase name = joinSpace (map capitalize (splitWhitespace (trim name)))"

text \<open>
  A stand-in for the phone library in the concrete instances. With the default country India
  it knows Indian mobile numbers only, ten digits starting with 6 to 9, bare or after the
  prefix +91; without a default country it accepts a plus sign followed by 8 to 15 digits.
  It refuses an input of more than 250 characters with an exception.
\<close>

definition isDigits :: "string \<Rightarrow> bool" where
  "isDigits s \<longleftrightarrow> list_all (\<lambda>c. c \<in> set ''0123456789'') s"

definition isIndianMobile :: "string \<Rightarrow> bool" where
  "isIndianMobile s \<longleftrightarrow> length s = 10 \<and> isDigits s \<and> hd s \<in> set ''6789''"

definition isPlusDigits :: "string \<Rightarrow> bool" where
  "isPlusDigits s \<longleftrightarrow>
     take 1 s = ''+'' \<and> 8 \<le> length (drop 1 s) \<and> length (drop 1 s) \<le> 15 \<and> isDigits (drop 1 s)"

definition sampleLib :: PhoneLib where
  "sampleLib =
     \<lparr>isValidPhoneNumber = (\<lambda>s country.
         if length s > 250 then None
         else Some (if country = Some ''IN''
                    then isIndianMobile s \<or> (take 3 s = ''+91'' \<and> isIndianMobile (drop 3 s))
                    else isPlusDigits s)),
      parseE164 = (\<lambda>s country.
         if country = Some ''IN'' \<and> isIndianMobile s then Some (''+91'' @ s)
         else if isPlusDigits s then Some s
         else None)\<rparr>"

section \<open>Correction Engine (components/import/FixAllToolbar.tsx)\<close>

text \<open>
  Every operation is a callback closed over the \<^verbatim>\<open>rawData\<close> of the render that created it:
  the argument \<open>rows\<close>. \<^verbatim>\<open>updateMultipleRows\<close> works on the store, the argument \<open>s\<close>. The
  result is the returned count and the store after the call.
\<close>

definition trimEdits :: "CSVRow list \<Rightarrow> RowUpdate list" where
  "trimEdits rows =
     concat (map (\<lambda>r. concat (map (\<lambda>fld.
         case get_field r fld of
           Some (JStr v) \<Rightarrow>
             if v \<noteq> trim v then [\<lparr>rowIndex = u_rowIndex r, field = fld, newValue = trim v\<rparr>]
             else []
         | _ \<Rightarrow> [])
       [''case_id'', ''applicant_name'', ''email'', ''phone''])) rows)"

definition trimWhitespace :: "CSVRow list \<Rightarrow> ImportState \<Rightarrow> nat \<times> ImportState" where
  "trimWhitespace rows s =
     (let updates = trimEdits rows
      in (length updates, if length updates > 0 then updateMultipleRows updates s else s))"

definition titleEdits :: "CSVRow list \<Rightarrow> RowUpdate list" where
  "titleEdits rows =
     concat (map (\<lambda>r.
         let name = applicant_name r in
         if trim name \<noteq> [] then
           (let titleCased = titleCase name in
            if titleCased \<noteq> name
            then [\<lparr>rowIndex = u_rowIndex r, field = ''applicant_name'', newValue = titleCased\<rparr>]
            else [])
         else []) rows)"

definition titleCaseNames :: "CSVRow list \<Rightarrow> ImportState \<Rightarrow> nat \<times> ImportState" where
  "titleCaseNames rows s =
     (let updates = titleEdits rows
      in (length updates, if length updates > 0 then updateMultipleRows updates s else s))"

definition phoneNormEdits :: "PhoneLib \<Rightarrow> CSVRow list \<Rightarrow> RowUpdate list" where
  "phoneNormEdits lib rows =
     concat (map (\<lambda>r.
         let ph = phone r in
         if trim ph \<noteq> [] then
           (case normalizePhone lib ph of
              Some normalized \<Rightarrow>
                if normalized \<noteq> [] \<and> normalized \<noteq> ph
                then [\<lparr>rowIndex = u_rowIndex r, field = ''phone'', newValue = normalized\<rparr>]
                else []
            | None \<Rightarrow> [])
         else []) rows)"

definition normalizePhones :: "PhoneLib \<Rightarrow> CSVRow list \<Rightarrow> ImportState \<Rightarrow> nat \<times> ImportState" where
  "normalizePhones lib rows s =
     (let updates = phoneNormEdits lib rows
      in (length updates, if length updates > 0 then updateMultipleRows updates s else s))"

definition priorityEdits :: "CSVRow list \<Rightarrow> RowUpdate list" where
  "priorityEdits rows =
     concat (map (\<lambda>r.
         if priority r = [] \<or> trim (priority r) = []
         then [\<lparr>rowIndex = u_rowIndex r, field = ''priority'', newValue = ''LOW''\<rparr>]
         else []) rows)"

definition setDefaultPriority :: "CSVRow list \<Rightarrow> ImportState \<Rightarrow> nat \<times> ImportState" where
  "setDefaultPriority rows s =
     (let updates = priorityEdits rows
      in (length updates, if length updates > 0 then updateMultipleRows updates s else s))"

text \<open>\<^verbatim>\<open>fixAll\<close> calls the four callbacks of the same render, one after the other.\<close>

definition fixAll :: "PhoneLib \<Rightarrow> CSVRow list \<Rightarrow> ImportState \<Rightarrow> nat \<times> ImportState" where
  "fixAll lib rows s =
     (let (trimmed, s1) = trimWhitespace rows s;
          (titled, s2) = titleCaseNames rows s1;
          (normalized, s3) = normalizePhones lib rows s2;
          (defaulted, s4) = setDefaultPriority rows s3
      in (trimmed + titled + normalized + defaulted, s4))"

text \<open>
  The fix-all of the specification's words, for comparison: every operation reads the rows
  that the operations before it have written.
\<close>

definition fixAll_observing :: "PhoneLib \<Rightarrow> ImportState \<Rightarrow> nat \<times> ImportState" where
  "fixAll_observing lib s =
     (let (trimmed, s1) = trimWhitespace (rawData s) s;
          (titled, s2) = titleCaseNames (rawData s1) s1;
          (normalized, s3) = normalizePhones lib (rawData s2) s2;
          (defaulted, s4) = setDefaultPriority (rawData s3) s3
      in (trimmed + titled + normalized + defaulted, s4))"

text \<open>A store whose only row has a name with a leading blank and nothing else to fix.\<close>

definition paddedName :: ImportState where
  "paddedName = setRawData [sampleRow ''C-1'' '' John Doe''] [] ''cases.csv'' initialState"

text \<open>
  The callers of the two updates. The grid (components/import/DataGrid.tsx) edits a cell
  through \<^verbatim>\<open>handleCellChange\<close>, which calls \<^verbatim>\<open>updateRow\<close>; each of its seven editable columns
  passes its own literal field name, and the column of \<^verbatim>\<open>_rowIndex\<close> only displays. The toolbar
  calls \<^verbatim>\<open>updateMultipleRows\<close> with the edit lists of the Correction Engine.
\<close>

definition editableFields :: "string list" where
  "editableFields =
     [''case_id'', ''applicant_name'', ''dob'', ''email'', ''phone'', ''category'', ''priority'']"

definition handleCellChange :: "jsval \<Rightarrow> string \<Rightarrow> string \<Rightarrow> ImportState \<Rightarrow> ImportState" where
  "handleCellChange ri fld v s = updateRow ri fld v s"

section \<open>Row Validator (CaseSchema in lib/validations.ts, validateData in import/page.tsx)\<close>

text \<open>
  What the validator takes from outside the repository: the clock and the date parser of
  the JavaScript runtime, and three answers of the zod library. \<open>dateParse s\<close> is the time
  value of \<^verbatim>\<open>new Date(s)\<close> in milliseconds, \<open>None\<close> for \<^verbatim>\<open>NaN\<close>; \<open>now\<close> is the time value of
  \<^verbatim>\<open>new Date()\<close>. \<open>isEmail\<close> is the format check of \<^verbatim>\<open>z.string().email()\<close>.
  \<open>invalidEnumMessage\<close> is the message of the issue that zod reports for a value outside an
  enum, from the options and the value. \<open>unionIssueMessage\<close> is the message of the issue that
  zod reports when no member of a union accepts the input, from the message of the first
  member's issue.
\<close>

record JsEnv =
  dateParse :: "string \<Rightarrow> int option"
  now :: int
  isEmail :: "string \<Rightarrow> bool"
  invalidEnumMessage :: "string list \<Rightarrow> string \<Rightarrow> string"
  unionIssueMessage :: "string \<Rightarrow> string"

text \<open>An issue of \<^verbatim>\<open>safeParse\<close>: the first element of its path, which is a key of the schema, and
  its message.\<close>

record ZodIssue =
  path :: string
  zmessage :: string

text \<open>The object that \<^verbatim>\<open>validateData\<close> hands to \<^verbatim>\<open>CaseSchema.safeParse\<close>; \<open>None\<close> is \<^verbatim>\<open>undefined\<close>.\<close>

record CaseInput =
  in_caseId :: string
  in_applicantName :: string
  in_dob :: string
  in_email :: "string option"
  in_phone :: "string option"
  in_category :: string
  in_priority :: "string option"

text \<open>The regular expression \<^verbatim>\<open>/^[A-Za-z0-9-]+$/\<close>.\<close>

definition isCaseIdChar :: "char \<Rightarrow> bool" where
  "isCaseIdChar c \<longleftrightarrow>
     c \<in> set ''ABCDEFGHIJKLMNOPQRSTUVWXYZabcdefghijklmnopqrstuvwxyz0123456789-''"

definition matchesCaseId :: "string \<Rightarrow> bool" where
  "matchesCaseId v \<longleftrightarrow> v \<noteq> [] \<and> list_all isCaseIdChar v"

definition CategoryEnum :: "string list" where
  "CategoryEnum = [''TAX'', ''LICENSE'', ''PERMIT'']"

definition PriorityEnum :: "string list" where
  "PriorityEnum = [''LOW'', ''MEDIUM'', ''HIGH'']"

text \<open>The checks of a zod string run one after the other and each adds its issue; so do the
  two refinements of \<^verbatim>\<open>dob\<close>. A comparison with an invalid date is false.\<close>

definition caseIdIssues :: "string \<Rightarrow> ZodIssue list" where
  "caseIdIssues v =
     (if length v < 1 then [\<lparr>path = ''caseId'', zmessage = ''Case ID is required''\<rparr>] else [])
     @ (if \<not> matchesCaseId v
        then [\<lparr>path = ''caseId'', zmessage = ''Case ID must be alphanumeric with hyphens''\<rparr>]
        else [])"

definition applicantNameIssues :: "string \<Rightarrow> ZodIssue list" where
  "applicantNameIssues v =
     (if length v < 1
      then [\<lparr>path = ''applicantName'', zmessage = ''Applicant name is required''\<rparr>] else [])
     @ (if length v > 255
        then [\<lparr>path = ''applicantName'',
               zmessage = ''Applicant name must be less than 255 characters''\<rparr>]
        else [])"

definition dobInRange :: "JsEnv \<Rightarrow> string \<Rightarrow> bool" where
  "dobInRange env v =
     (case (dateParse env v, dateParse env ''1900-01-01'') of
        (Some date, Some minDate) \<Rightarrow> date \<ge> minDate \<and> date \<le> now env
      | _ \<Rightarrow> False)"

definition dobIssues :: "JsEnv \<Rightarrow> string \<Rightarrow> ZodIssue list" where
  "dobIssues env v =
     (if dateParse env v = None then [\<lparr>path = ''dob'', zmessage = ''Invalid date format''\<rparr>] else [])
     @ (if \<not> dobInRange env v
        then [\<lparr>path = ''dob'', zmessage = ''Date of birth must be between 1900 and today''\<rparr>]
        else [])"

text \<open>\<^verbatim>\<open>z.string().email(..).optional().nullable().or(z.literal(""))\<close>.\<close>

definition emailIssues :: "JsEnv \<Rightarrow> string option \<Rightarrow> ZodIssue list" where
  "emailIssues env v =
     (case v of
        None \<Rightarrow> []
      | Some e \<Rightarrow>
          if isEmail env e \<or> e = [] then []
          else [\<lparr>path = ''email'', zmessage = unionIssueMessage env ''Invalid email format''\<rparr>])"

text \<open>\<^verbatim>\<open>phone\<close> accepts every string and \<^verbatim>\<open>undefined\<close>; its transform cannot fail, since
  \<^verbatim>\<open>normalizePhone\<close> does not throw.\<close>

definition phoneIssues :: "string option \<Rightarrow> ZodIssue list" where
  "phoneIssues v = []"

definition categoryIssues :: "JsEnv \<Rightarrow> string \<Rightarrow> ZodIssue list" where
  "categoryIssues env v =
     (if v \<in> set CategoryEnum then []
      else [\<lparr>path = ''category'', zmessage = invalidEnumMessage env CategoryEnum v\<rparr>])"

text \<open>\<^verbatim>\<open>PriorityEnum.optional().default("LOW")\<close>.\<close>

definition priorityIssues :: "JsEnv \<Rightarrow> string option \<Rightarrow> ZodIssue list" where
  "priorityIssues env v =
     (case v of
        None \<Rightarrow> []
      | Some p \<Rightarrow>
          if p \<in> set PriorityEnum then []
          else [\<lparr>path = ''priority'', zmessage = invalidEnumMessage env PriorityEnum p\<rparr>])"

text \<open>The issues of \<^verbatim>\<open>CaseSchema.safeParse\<close>, key by key in the order of the schema;
  \<^verbatim>\<open>result.success\<close> is that there are none.\<close>

definition CaseSchema_issues :: "JsEnv \<Rightarrow> CaseInput \<Rightarrow> ZodIssue list" where
  "CaseSchema_issues env inp =
     caseIdIssues (in_caseId inp) @ applicantNameIssues (in_applicantName inp)
     @ dobIssues env (in_dob inp) @ emailIssues env (in_email inp) @ phoneIssues (in_phone inp)
     @ categoryIssues env (in_category inp) @ priorityIssues env (in_priority inp)"

text \<open>\<^verbatim>\<open>s || undefined\<close> for a string \<open>s\<close>.\<close>

definition orUndefined :: "string \<Rightarrow> string option" where
  "orUndefined s = (if s = [] then None else Some s)"

text \<open>A natural number in a template literal: its decimal digits.\<close>

function showNat :: "nat \<Rightarrow> string" where
  "showNat n = (if n < 10 then [''0123456789'' ! n] else showNat (n div 10) @ [''0123456789'' ! (n mod 10)])"
  by pat_completeness auto
termination
  by (relation "measure id") auto

declare showNat.simps [simp del]

text \<open>\<^verbatim>\<open>{ caseId: "case_id", applicantName: "applicant_name" }[field] || field\<close>, on the keys of
  the schema.\<close>

definition mappedField :: "string \<Rightarrow> string" where
  "mappedField fld =
     (if fld = ''caseId'' then ''case_id''
      else if fld = ''applicantName'' then ''applicant_name''
      else fld)"

text \<open>\<^verbatim>\<open>row[mappedField] as string\<close>.\<close>

definition rowValue :: "CSVRow \<Rightarrow> string \<Rightarrow> string option" where
  "rowValue r fld = (case get_field r fld of Some (JStr v) \<Rightarrow> Some v | _ \<Rightarrow> None)"

text \<open>The body of the \<^verbatim>\<open>forEach\<close> of \<^verbatim>\<open>validateData\<close> in its four parts: the duplicate check
  against the map \<^verbatim>\<open>seenIds\<close>, the issues of the schema, and the two additional checks.\<close>

definition duplicateErrors :: "nat \<Rightarrow> CSVRow \<Rightarrow> (string \<rightharpoonup> nat) \<Rightarrow> ValidationError list" where
  "duplicateErrors index r seenIds =
     (let cid = case_id r in
      if cid \<noteq> [] then
        (case seenIds cid of
           Some firstSeen \<Rightarrow>
             [\<lparr>row = index, errField = ''case_id'', errValue = Some cid,
               message = ''Duplicate case ID (first seen at row '' @ showNat (firstSeen + 1) @ '')''\<rparr>]
         | None \<Rightarrow> [])
      else [])"

definition seenIdsStep :: "nat \<Rightarrow> CSVRow \<Rightarrow> (string \<rightharpoonup> nat) \<Rightarrow> (string \<rightharpoonup> nat)" where
  "seenIdsStep index r seenIds =
     (let cid = case_id r in
      if cid \<noteq> [] then
        (case seenIds cid of Some firstSeen \<Rightarrow> seenIds | None \<Rightarrow> seenIds(cid \<mapsto> index))
      else seenIds)"

definition schemaErrors :: "JsEnv \<Rightarrow> nat \<Rightarrow> CSVRow \<Rightarrow> ValidationError list" where
  "schemaErrors env index r =
     map (\<lambda>err. \<lparr>row = index, errField = mappedField (path err),
                 errValue = rowValue r (mappedField (path err)), message = zmessage err\<rparr>)
       (CaseSchema_issues env
          \<lparr>in_caseId = case_id r, in_applicantName = applicant_name r, in_dob = dob r,
           in_email = orUndefined (email r), in_phone = orUndefined (phone r),
           in_category = category r, in_priority = orUndefined (priority r)\<rparr>)"

definition categoryError :: "nat \<Rightarrow> CSVRow \<Rightarrow> ValidationError list" where
  "categoryError index r =
     (if category r \<noteq> [] \<and> category r \<notin> set CategoryEnum
      then [\<lparr>row = index, errField = ''category'', errValue = Some (category r),
             message = ''Category must be TAX, LICENSE, or PERMIT''\<rparr>]
      else [])"

definition priorityError :: "nat \<Rightarrow> CSVRow \<Rightarrow> ValidationError list" where
  "priorityError index r =
     (if priority r \<noteq> [] \<and> priority r \<notin> set PriorityEnum
      then [\<lparr>row = index, errField = ''priority'', errValue = Some (priority r),
             message = ''Priority must be LOW, MEDIUM, or HIGH''\<rparr>]
      else [])"

text \<open>\<^verbatim>\<open>rawData.forEach((row, index) => ...)\<close> from position \<open>index\<close> on; the errors pushed are
  returned in the order of the pushes.\<close>

fun validateRows :: "JsEnv \<Rightarrow> nat \<Rightarrow> (string \<rightharpoonup> nat) \<Rightarrow> CSVRow list \<Rightarrow> ValidationError list" where
  "validateRows env index seenIds [] = []"
| "validateRows env index seenIds (r # rest) =
     duplicateErrors index r seenIds @ schemaErrors env index r
     @ categoryError index r @ priorityError index r
     @ validateRows env (Suc index) (seenIdsStep index r seenIds) rest"

text \<open>The list \<^verbatim>\<open>errors\<close> of \<^verbatim>\<open>validateData\<close> for the \<^verbatim>\<open>rawData\<close> of the render, the argument \<open>rows\<close>.\<close>

definition validateData :: "JsEnv \<Rightarrow> CSVRow list \<Rightarrow> ValidationError list" where
  "validateData env rows = validateRows env 0 Map.empty rows"

definition setValidationErrors :: "ValidationError list \<Rightarrow> ImportState \<Rightarrow> ImportState" where
  "setValidationErrors errors s = s\<lparr>validationErrors := errors\<rparr>"

text \<open>A run of the Validator on a store: \<^verbatim>\<open>validateData\<close> of the render of that store, with its
  final \<^verbatim>\<open>setValidationErrors(errors)\<close>.\<close>

definition runValidator :: "JsEnv \<Rightarrow> ImportState \<Rightarrow> ImportState" where
  "runValidator env s = setValidationErrors (validateData env (rawData s)) s"

text \<open>The map \<^verbatim>\<open>seenIds\<close> after the loop has passed the given rows.\<close>

fun seenIdsAfter :: "nat \<Rightarrow> (string \<rightharpoonup> nat) \<Rightarrow> CSVRow list \<Rightarrow> (string \<rightharpoonup> nat)" where
  "seenIdsAfter index seenIds [] = seenIds"
| "seenIdsAfter index seenIds (r # rest) = seenIdsAfter (Suc index) (seenIdsStep index r seenIds) rest"

text \<open>A duplicate-case-id error: an error on \<^verbatim>\<open>case_id\<close> whose message starts as the message of
  the duplicate check does.\<close>

definition isDuplicateError :: "ValidationError \<Rightarrow> bool" where
  "isDuplicateError e \<longleftrightarrow> errField e = ''case_id'' \<and> prefix ''Duplicate case ID'' (message e)"

text \<open>The position of a field in the declaration of a row.\<close>

definition fieldRank :: "string \<Rightarrow> nat" where
  "fieldRank fld =
     (case findIndex (\<lambda>f. f = fld)
             [''case_id'', ''applicant_name'', ''dob'', ''email'', ''phone'', ''category'', ''priority''] of
        Some k \<Rightarrow> k | None \<Rightarrow> 7)"

text \<open>A stand-in for the runtime and the zod library in the concrete instances: the clock
  stands at 2026-11-02, the date parser knows three ISO dates, an e-mail address is a string
  with an at sign.\<close>

definition sampleEnv :: JsEnv where
  "sampleEnv =
     \<lparr>dateParse = map_of [(''1900-01-01'', - 2208988800000), (''1990-03-14'', 637372800000),
                           (''2050-01-01'', 2524608000000)],
      now = 1793577600000,
      isEmail = (\<lambda>s. CHR ''@'' \<in> set s),
      invalidEnumMessage = (\<lambda>options v. ''Invalid enum value''),
      unionIssueMessage = (\<lambda>m. m)\<rparr>"

text \<open>The order that the specification's words give the error list, for comparison: by row,
  and within a row by the position of the field in the declaration.\<close>

definition rowThenFieldOrder :: "ValidationError list \<Rightarrow> bool" where
  "rowThenFieldOrder errs \<longleftrightarrow>
     sorted_wrt (\<lambda>a b. row a < row b \<or> (row a = row b \<and> fieldRank (errField a) \<le> fieldRank (errField b)))
       errs"

text \<open>Concrete instances: a row whose category and priority are both outside their
  enumerations, and three rows of which the third repeats the case id of the first.\<close>

definition wrongEnums :: "CSVRow list" where
  "wrongEnums = [(sampleRow ''C-1'' ''Ann'')\<lparr>category := ''FOO'', priority := ''BAR''\<rparr>]"

definition repeatedId :: "CSVRow list" where
  "repeatedId = [sampleRow ''C-1'' ''Ann'', sampleRow ''C-2'' ''Bob'', sampleRow ''C-1'' ''Cy'']"

section \<open>Batch Submitter (components/import/BatchSubmit.tsx)\<close>

definition BATCH_SIZE :: nat where
  "BATCH_SIZE = 100"

definition setProgress :: "ImportProgress option \<Rightarrow> ImportState \<Rightarrow> ImportState" where
  "setProgress p s = s\<lparr>progress := p\<rparr>"

definition setImportId :: "string \<Rightarrow> ImportState \<Rightarrow> ImportState" where
  "setImportId i s = s\<lparr>importId := Some i\<rparr>"

definition setIsSubmitting :: "bool \<Rightarrow> ImportState \<Rightarrow> ImportState" where
  "setIsSubmitting b s = s\<lparr>isSubmitting := b\<rparr>"

text \<open>One element of \<^verbatim>\<open>cases\<close> in the body of a batch request; \<open>None\<close> is \<^verbatim>\<open>null\<close>.\<close>

record CasePayload =
  p_caseId :: string
  p_applicantName :: string
  p_dob :: string
  p_email :: "string option"
  p_phone :: "string option"
  p_category :: string
  p_priority :: string

text \<open>The requests that the component sends: creating the import record, posting a batch
  with the import identifier, and the final update of the import record with its status and
  the two counts.\<close>

datatype Request =
    CreateImport string nat
  | PostBatch "CasePayload list" string
  | PatchImport string string nat nat

text \<open>What a batch request comes to: \<open>TransportFailure\<close> when control reaches the \<^verbatim>\<open>catch\<close> block
  (the \<^verbatim>\<open>fetch\<close> rejects, the response is not ok, or its body cannot be used), else the
  per-row results of the response.\<close>

datatype BatchOutcome = TransportFailure | Results "BatchResult list"

text \<open>
  The world around one run. \<open>createImport\<close> answers the request for an import record with
  its identifier, \<open>None\<close> when the request fails. \<open>postBatch i\<close> answers the request for the
  batch with index \<open>i\<close>. \<open>cancelPressedDuring i\<close> says whether the user presses Cancel while that
  request is in flight.
\<close>

record World =
  createImport :: "string \<Rightarrow> nat \<Rightarrow> string option"
  postBatch :: "nat \<Rightarrow> CasePayload list \<Rightarrow> BatchOutcome"
  cancelPressedDuring :: "nat \<Rightarrow> bool"

text \<open>
  The state that a run works on: the store, the React state \<^verbatim>\<open>isCancelled\<close> of the
  component (what \<^verbatim>\<open>setIsCancelled\<close> has set last), and the requests sent so far.
\<close>

record SubmitState =
  store :: ImportState
  isCancelledState :: bool
  requests :: "Request list"

text \<open>\<^verbatim>\<open>validRows\<close>: the rows without a validation error on their \<^verbatim>\<open>_rowIndex\<close>.\<close>

definition validRows :: "ImportState \<Rightarrow> CSVRow list" where
  "validRows s =
     filter (\<lambda>r. \<not> list_ex (\<lambda>e. JNum (row e) = u_rowIndex r) (validationErrors s)) (rawData s)"

text \<open>\<^verbatim>\<open>xs.slice(start, stop)\<close> for indices that are not negative.\<close>

definition slice :: "'a list \<Rightarrow> nat \<Rightarrow> nat \<Rightarrow> 'a list" where
  "slice xs start stop = drop start (take stop xs)"

text \<open>\<^verbatim>\<open>s || null\<close> for a string \<open>s\<close>.\<close>

definition orNull :: "string \<Rightarrow> string option" where
  "orNull s = (if s = [] then None else Some s)"

definition toPayload :: "CSVRow \<Rightarrow> CasePayload" where
  "toPayload r =
     \<lparr>p_caseId = case_id r, p_applicantName = applicant_name r, p_dob = dob r,
      p_email = orNull (email r), p_phone = orNull (phone r), p_category = category r,
      p_priority = (if priority r = [] then ''LOW'' else priority r)\<rparr>"

text \<open>\<^verbatim>\<open>Math.ceil(validRows.length / BATCH_SIZE)\<close>.\<close>

definition totalBatchesOf :: "nat \<Rightarrow> nat" where
  "totalBatchesOf n = nat \<lceil>real n / real BATCH_SIZE\<rceil>"

text \<open>The \<^verbatim>\<open>batch\<close> of the loop iteration \<open>i\<close>: the rows from \<^verbatim>\<open>start\<close> up to \<^verbatim>\<open>end\<close>.\<close>

definition batchOf :: "CSVRow list \<Rightarrow> nat \<Rightarrow> CSVRow list" where
  "batchOf rows i =
     (let start = i * BATCH_SIZE;
          stop = min (start + BATCH_SIZE) (length rows)
      in slice rows start stop)"

definition failedResult :: "CSVRow \<Rightarrow> BatchResult" where
  "failedResult r =
     \<lparr>ok = False, caseId = case_id r, error = Some ''Network error - please retry'', createdId = None\<rparr>"

text \<open>
  The loop \<^verbatim>\<open>for (let i = 0; i < totalBatches; i++)\<close> of \<^verbatim>\<open>startSubmission\<close>, from \<open>i\<close> on, with
  the local counters \<^verbatim>\<open>successCount\<close> and \<^verbatim>\<open>failedCount\<close>. The arguments \<open>isCancelled\<close> and
  \<open>rows\<close> are the constants \<^verbatim>\<open>isCancelled\<close> and \<^verbatim>\<open>validRows\<close> of the render whose callback is
  running. While the request of a batch is awaited, a press of Cancel runs
  \<^verbatim>\<open>setIsCancelled(true)\<close>, which sets the React state, not that constant.
\<close>

function batchLoop ::
  "World \<Rightarrow> bool \<Rightarrow> CSVRow list \<Rightarrow> string \<Rightarrow> nat \<Rightarrow> nat \<Rightarrow> nat \<times> nat \<times> SubmitState
    \<Rightarrow> nat \<times> nat \<times> SubmitState" where
  "batchLoop w isCancelled rows importRecordId totalB i (successCount, failedCount, st) =
     (if i < totalB then
        if isCancelled then (successCount, failedCount, st)
        else
          let stop = min (i * BATCH_SIZE + BATCH_SIZE) (length rows);
              batch = batchOf rows i;
              cases = map toPayload batch;
              st1 = st\<lparr>requests := requests st @ [PostBatch cases importRecordId],
                       isCancelledState := isCancelledState st \<or> cancelPressedDuring w i\<rparr>
          in case postBatch w i cases of
               Results results \<Rightarrow>
                 let successCount' = successCount + length (filter ok results);
                     failedCount' = failedCount + length (filter (\<lambda>r. \<not> ok r) results);
                     st2 = st1\<lparr>store :=
                       setProgress (Some \<lparr>total = length rows, processed = stop,
                           success = successCount', failed = failedCount',
                           currentBatch = i + 1, totalBatches = totalB\<rparr>)
                         (addBatchResults results (store st1))\<rparr>
                 in batchLoop w isCancelled rows importRecordId totalB (i + 1)
                      (successCount', failedCount', st2)
             | TransportFailure \<Rightarrow>
                 let failedResults = map failedResult batch;
                     failedCount' = failedCount + length batch;
                     st2 = st1\<lparr>store :=
                       setProgress (Some \<lparr>total = length rows, processed = stop,
                           success = successCount, failed = failedCount',
                           currentBatch = i + 1, totalBatches = totalB\<rparr>)
                         (addBatchResults failedResults (store st1))\<rparr>
                 in batchLoop w isCancelled rows importRecordId totalB (i + 1)
                      (successCount, failedCount', st2)
      else (successCount, failedCount, st))"
  by pat_completeness auto
termination
  by (relation "measure (\<lambda>(w, isCancelled, rows, importRecordId, totalB, i, acc). totalB - i)") auto

declare batchLoop.simps [simp del]

text \<open>\<^verbatim>\<open>filename || "import.csv"\<close>.\<close>

definition filenameOrDefault :: "string option \<Rightarrow> string" where
  "filenameOrDefault fname =
     (case fname of None \<Rightarrow> ''import.csv'' | Some f \<Rightarrow> if f = [] then ''import.csv'' else f)"

text \<open>
  \<^verbatim>\<open>startSubmission\<close>, the callback of a render with the constants \<open>isCancelled\<close>, \<open>rows\<close>
  (\<^verbatim>\<open>validRows\<close>) and \<open>fname\<close> (\<^verbatim>\<open>filename\<close>). A failure to create the import record throws to
  the outer \<^verbatim>\<open>catch\<close>; the \<^verbatim>\<open>finally\<close> block resets \<^verbatim>\<open>isSubmitting\<close> on every path.
\<close>

definition startSubmission ::
  "World \<Rightarrow> bool \<Rightarrow> CSVRow list \<Rightarrow> string option \<Rightarrow> SubmitState \<Rightarrow> SubmitState" where
  "startSubmission w isCancelled rows fname st =
     (if length rows = 0 then st
      else
        let st1 = st\<lparr>store := setIsSubmitting True (store st), isCancelledState := False\<rparr>;
            st2 = st1\<lparr>requests := requests st1 @ [CreateImport (filenameOrDefault fname) (length rows)]\<rparr>
        in case createImport w (filenameOrDefault fname) (length rows) of
             None \<Rightarrow> st2\<lparr>store := setIsSubmitting False (store st2)\<rparr>
           | Some importRecordId \<Rightarrow>
               let totalB = totalBatchesOf (length rows);
                   st3 = st2\<lparr>store :=
                     setProgress (Some \<lparr>total = length rows, processed = 0, success = 0, failed = 0,
                         currentBatch = 0, totalBatches = totalB\<rparr>)
                       (setImportId importRecordId (store st2))\<rparr>;
                   (successCount, failedCount, st4) =
                     batchLoop w isCancelled rows importRecordId totalB 0 (0, 0, st3);
                   st5 = st4\<lparr>requests := requests st4 @
                     [PatchImport importRecordId (if isCancelled then ''FAILED'' else ''COMPLETED'')
                        successCount failedCount]\<rparr>
               in st5\<lparr>store := setIsSubmitting False (store st5)\<rparr>)"

text \<open>
  \<^verbatim>\<open>retryFailed\<close>, the callback of the same render: \<open>rows\<close> is the \<^verbatim>\<open>validRows\<close> that its
  \<^verbatim>\<open>startSubmission\<close> is closed over; \<^verbatim>\<open>batchResults\<close> and \<^verbatim>\<open>rawData\<close> are those of the store.
\<close>

definition retryFailed ::
  "World \<Rightarrow> bool \<Rightarrow> CSVRow list \<Rightarrow> string option \<Rightarrow> SubmitState \<Rightarrow> SubmitState" where
  "retryFailed w isCancelled rows fname st =
     (let failedCaseIds = map caseId (filter (\<lambda>r. \<not> ok r) (batchResults (store st)));
          rowsToRetry = filter (\<lambda>r. case_id r \<in> set failedCaseIds) (rawData (store st))
      in if length rowsToRetry = 0 then st
         else startSubmission w isCancelled rows fname st)"

text \<open>A press of the start button, or of the retry button, on the component as rendered
  from the state \<open>st\<close>: the callbacks hold the values of that render.\<close>

definition pressStart :: "World \<Rightarrow> SubmitState \<Rightarrow> SubmitState" where
  "pressStart w st =
     startSubmission w (isCancelledState st) (validRows (store st)) (filename (store st)) st"

definition pressRetry :: "World \<Rightarrow> SubmitState \<Rightarrow> SubmitState" where
  "pressRetry w st =
     retryFailed w (isCancelledState st) (validRows (store st)) (filename (store st)) st"

text \<open>The batches among a list of requests, in the order they were sent.\<close>

fun postedBatches :: "Request list \<Rightarrow> CasePayload list list" where
  "postedBatches [] = []"
| "postedBatches (PostBatch cases iid # reqs) = cases # postedBatches reqs"
| "postedBatches (other # reqs) = postedBatches reqs"

text \<open>The results that the iteration \<open>i\<close> of the loop adds to the store.\<close>

definition resultsOf :: "World \<Rightarrow> CSVRow list \<Rightarrow> nat \<Rightarrow> BatchResult list" where
  "resultsOf w rows i =
     (case postBatch w i (map toPayload (batchOf rows i)) of
        Results results \<Rightarrow> results
      | TransportFailure \<Rightarrow> map failedResult (batchOf rows i))"

text \<open>The row index of a row as a number.\<close>

definition rowIndexNumber :: "CSVRow \<Rightarrow> nat" where
  "rowIndexNumber r = (case u_rowIndex r of JNum n \<Rightarrow> n | JStr s \<Rightarrow> 0)"

text \<open>One iteration of the loop when it is not left by \<^verbatim>\<open>break\<close>, with both branches of the
  \<^verbatim>\<open>try\<close> written through \<open>resultsOf\<close>.\<close>

definition batchStep ::
  "World \<Rightarrow> CSVRow list \<Rightarrow> string \<Rightarrow> nat \<Rightarrow> nat \<Rightarrow> nat \<times> nat \<times> SubmitState \<Rightarrow> nat \<times> nat \<times> SubmitState" where
  "batchStep w rows importRecordId totalB i acc =
     (case acc of (successCount, failedCount, st) \<Rightarrow>
        (successCount + length (filter ok (resultsOf w rows i)),
         failedCount + length (filter (\<lambda>r. \<not> ok r) (resultsOf w rows i)),
         st\<lparr>requests := requests st @ [PostBatch (map toPayload (batchOf rows i)) importRecordId],
            isCancelledState := isCancelledState st \<or> cancelPressedDuring w i,
            store := setProgress
              (Some \<lparr>total = length rows,
                     processed = min (i * BATCH_SIZE + BATCH_SIZE) (length rows),
                     success = successCount + length (filter ok (resultsOf w rows i)),
                     failed = failedCount + length (filter (\<lambda>r. \<not> ok r) (resultsOf w rows i)),
                     currentBatch = i + 1, totalBatches = totalB\<rparr>)
              (addBatchResults (resultsOf w rows i) (store st))\<rparr>))"

text \<open>
  Concrete instances. In \<open>flakyWorld\<close> the import record is created, the batch with index 1
  fails in transport, every other batch is accepted row by row, and the user presses Cancel
  while the first batch is in flight. In \<open>rejectingWorld\<close> nobody cancels and the server
  rejects the case "C-2" and accepts every other case. \<open>manyRows\<close> is a store with 250 rows and
  no validation error, \<open>readyMany\<close> and \<open>readyTwo\<close> are components before their first run.
\<close>

definition acceptAll :: "CasePayload list \<Rightarrow> BatchResult list" where
  "acceptAll cases =
     map (\<lambda>c. \<lparr>ok = True, caseId = p_caseId c, error = None, createdId = Some ''created''\<rparr>) cases"

definition flakyWorld :: World where
  "flakyWorld =
     \<lparr>createImport = (\<lambda>fname n. Some ''imp-1''),
      postBatch = (\<lambda>i cases. if i = 1 then TransportFailure else Results (acceptAll cases)),
      cancelPressedDuring = (\<lambda>i. i = 0)\<rparr>"

definition rejectingWorld :: World where
  "rejectingWorld =
     \<lparr>createImport = (\<lambda>fname n. Some ''imp-1''),
      postBatch = (\<lambda>i cases. Results (map (\<lambda>c.
         if p_caseId c = ''C-2''
         then \<lparr>ok = False, caseId = p_caseId c, error = Some ''Case ID already exists'', createdId = None\<rparr>
         else \<lparr>ok = True, caseId = p_caseId c, error = None, createdId = Some ''created''\<rparr>) cases)),
      cancelPressedDuring = (\<lambda>i. False)\<rparr>"

definition manyRows :: ImportState where
  "manyRows =
     setRawData (map (\<lambda>i. sampleRow (''C-'' @ showNat i) ''Ann'') [0..<250]) [] ''cases.csv'' initialState"

definition readyMany :: SubmitState where
  "readyMany = \<lparr>store = manyRows, isCancelledState = False, requests = []\<rparr>"

definition readyTwo :: SubmitState where
  "readyTwo = \<lparr>store = twoRows, isCancelledState = False, requests = []\<rparr>"

text \<open>The status that a request sets on the import record, if it is such a request.\<close>

fun patchStatus :: "Request \<Rightarrow> string option" where
  "patchStatus (PatchImport iid status successCount failureCount) = Some status"
| "patchStatus other = None"

section \<open>Row identity and frame properties of the store\<close>

lemma get_set_field: "get_field (set_field r f v) g = (if g = f then Some (JStr v) else get_field r g)"
  by (simp add: get_field_def set_field_def)

lemma set_field_rowIndex: "f \<noteq> ''_rowIndex'' \<Longrightarrow> u_rowIndex (set_field r f v) = u_rowIndex r"
  by (simp add: set_field_def)

lemma length_assignRowIndex: "length (assignRowIndex k rs) = length rs"
  by (induction rs arbitrary: k) simp_all

lemma nth_assignRowIndex:
  "i < length rs \<Longrightarrow> assignRowIndex k rs ! i = (rs ! i)\<lparr>u_rowIndex := JNum (k + i)\<rparr>"
proof (induction rs arbitrary: k i)
  case Nil
  then show ?case by simp
next
  case (Cons r rs)
  then show ?case by (cases i) simp_all
qed

lemma map_rowIndex_assign: "map u_rowIndex (assignRowIndex k rs) = map JNum [k..<k + length rs]"
proof (induction rs arbitrary: k)
  case Nil
  then show ?case by simp
next
  case (Cons r rs)
  have "[k..<k + length (r # rs)] = k # [Suc k..<Suc k + length rs]"
    by (simp add: upt_rec)
  with Cons show ?case by simp
qed

lemma distinct_assignRowIndex: "distinct (map u_rowIndex (assignRowIndex k rs))"
  by (simp add: map_rowIndex_assign distinct_map inj_on_def)


lemma length_applyUpdates: "length (applyUpdates rows us) = length rows"
  by (induction us arbitrary: rows) (simp_all split: option.splits)

lemma findIndex_Some:
  "findIndex P xs = Some p \<Longrightarrow> p < length xs \<and> P (xs ! p) \<and> (\<forall>q<p. \<not> P (xs ! q))"
proof (induction xs arbitrary: p)
  case Nil
  then show ?case by simp
next
  case (Cons x xs)
  show ?case
  proof (cases "P x")
    case True
    with Cons.prems show ?thesis by simp
  next
    case False
    with Cons.prems obtain p' where p': "findIndex P xs = Some p'" "p = Suc p'"
      by auto
    from Cons.IH [OF p'(1)] False p'(2) show ?thesis
      by (auto simp: nth_Cons split: nat.splits)
  qed
qed

lemma findIndex_None: "findIndex P xs = None \<longleftrightarrow> \<not> list_ex P xs"
  by (induction xs) simp_all

lemma findIndex_map: "findIndex P (map f xs) = findIndex (\<lambda>x. P (f x)) xs"
  by (induction xs) simp_all

lemma findIndex_rowIndex_cong:
  assumes "map u_rowIndex rows' = map u_rowIndex rows"
  shows "findIndex (\<lambda>r. u_rowIndex r = c) rows' = findIndex (\<lambda>r. u_rowIndex r = c) rows"
proof -
  have "findIndex (\<lambda>r. u_rowIndex r = c) rows' = findIndex (\<lambda>v. v = c) (map u_rowIndex rows')"
    by (simp add: findIndex_map)
  also have "\<dots> = findIndex (\<lambda>r. u_rowIndex r = c) rows"
    by (simp add: assms findIndex_map)
  finally show ?thesis .
qed

lemma applyUpdates_append: "applyUpdates rows (us @ vs) = applyUpdates (applyUpdates rows us) vs"
  by (induction us arbitrary: rows) (simp_all split: option.splits)

lemma map_rowIndex_update:
  "f \<noteq> ''_rowIndex'' \<Longrightarrow> map u_rowIndex (rows[p := set_field (rows ! p) f v]) = map u_rowIndex rows"
proof -
  assume f: "f \<noteq> ''_rowIndex''"
  have "map u_rowIndex (rows[p := set_field (rows ! p) f v])
          = (map u_rowIndex rows)[p := u_rowIndex (rows ! p)]"
    by (simp only: map_update set_field_rowIndex [OF f])
  also have "\<dots> = map u_rowIndex rows"
  proof (cases "p < length rows")
    case True
    then have "u_rowIndex (rows ! p) = map u_rowIndex rows ! p" by simp
    then show ?thesis by (simp only: list_update_id)
  next
    case False
    then have "length (map u_rowIndex rows) \<le> p" by simp
    then show ?thesis by (rule list_update_beyond)
  qed
  finally show ?thesis .
qed

lemma map_rowIndex_applyUpdates:
  "list_all (\<lambda>u. field u \<noteq> ''_rowIndex'') us \<Longrightarrow>
   map u_rowIndex (applyUpdates rows us) = map u_rowIndex rows"
proof (induction us arbitrary: rows)
  case Nil
  then show ?case by simp
next
  case (Cons u us)
  then show ?case
    by (simp add: map_rowIndex_update split: option.splits)
qed

lemma map_rowIndex_updateRow:
  "f \<noteq> ''_rowIndex'' \<Longrightarrow>
   map u_rowIndex (rawData (updateRow i f v s)) = map u_rowIndex (rawData s)"
  by (simp add: updateRow_def set_field_rowIndex)

lemma lastEdit_snoc:
  "lastEdit (us @ [u]) i g =
     (if rowIndex u = i \<and> field u = g then Some (newValue u) else lastEdit us i g)"
  by (simp add: lastEdit_def)

lemma applyUpdates_single_hit:
  assumes "findIndex (\<lambda>r. u_rowIndex r = rowIndex u) rows = Some p"
  shows "applyUpdates rows [u] = rows[p := set_field (rows ! p) (field u) (newValue u)]"
  using assms by simp

lemma applyUpdates_single_miss:
  assumes "\<not> list_ex (\<lambda>r. u_rowIndex r = rowIndex u) rows"
  shows "applyUpdates rows [u] = rows"
  using assms by (simp add: findIndex_None [symmetric])

lemma applyUpdates_lastEdit:
  assumes "list_all (\<lambda>u. field u \<noteq> ''_rowIndex'') us"
    and "findIndex (\<lambda>r. u_rowIndex r = i) rows = Some p"
  shows "get_field (applyUpdates rows us ! p) g =
           (case lastEdit us i g of Some v \<Rightarrow> Some (JStr v) | None \<Rightarrow> get_field (rows ! p) g)"
  using assms(1)
proof (induction us rule: rev_induct)
  case Nil
  then show ?case by (simp add: lastEdit_def)
next
  case (snoc u us)
  let ?rows = "applyUpdates rows us"
  from snoc.prems have nus: "list_all (\<lambda>u. field u \<noteq> ''_rowIndex'') us"
    and nu: "field u \<noteq> ''_rowIndex''" by simp_all
  have idx: "map u_rowIndex ?rows = map u_rowIndex rows"
    by (rule map_rowIndex_applyUpdates [OF nus])
  have len: "length ?rows = length rows" by (rule length_applyUpdates)
  from findIndex_Some [OF assms(2)] have p: "p < length rows" "u_rowIndex (rows ! p) = i"
    by simp_all
  have rp: "u_rowIndex (?rows ! p) = i"
    using idx p len by (metis nth_map)
  have fi: "findIndex (\<lambda>r. u_rowIndex r = j) ?rows = findIndex (\<lambda>r. u_rowIndex r = j) rows" for j
    by (rule findIndex_rowIndex_cong [OF idx])
  have IH: "get_field (?rows ! p) g =
      (case lastEdit us i g of Some v \<Rightarrow> Some (JStr v) | None \<Rightarrow> get_field (rows ! p) g)"
    by (rule snoc.IH [OF nus])
  show ?case
  proof (cases "findIndex (\<lambda>r. u_rowIndex r = rowIndex u) ?rows")
    case None
    then have "rowIndex u \<noteq> i" using fi [of i] assms(2) by auto
    moreover from None have "applyUpdates rows (us @ [u]) = ?rows"
      by (simp add: applyUpdates_append)
    ultimately show ?thesis using IH by (simp add: lastEdit_snoc)
  next
    case (Some q)
    then have app: "applyUpdates rows (us @ [u]) = ?rows[q := set_field (?rows ! q) (field u) (newValue u)]"
      by (simp add: applyUpdates_append)
    from findIndex_Some [OF Some] have q: "q < length ?rows" "u_rowIndex (?rows ! q) = rowIndex u"
      by simp_all
    show ?thesis
    proof (cases "rowIndex u = i")
      case True
      with Some fi [of i] assms(2) have "q = p" by simp
      with app q True IH show ?thesis
        by (simp add: get_set_field lastEdit_snoc)
    next
      case False
      with q rp have "q \<noteq> p" by auto
      with app False IH show ?thesis
        by (simp add: lastEdit_snoc)
    qed
  qed
qed

lemma updateRow_other_row:
  assumes "p < length (rawData s)" and "u_rowIndex (rawData s ! p) \<noteq> i"
  shows "rawData (updateRow i f v s) ! p = rawData s ! p"
  using assms by (simp add: updateRow_def)

lemma updateRow_hit_row:
  assumes "p < length (rawData s)" and "u_rowIndex (rawData s ! p) = i"
  shows "get_field (rawData (updateRow i f v s) ! p) g =
           (if g = f then Some (JStr v) else get_field (rawData s ! p) g)"
  using assms by (simp add: updateRow_def get_set_field)

lemma updateRow_absent:
  assumes "\<not> list_ex (\<lambda>r. u_rowIndex r = i) (rawData s)"
  shows "updateRow i f v s = s"
proof -
  from assms have "\<forall>r\<in>set (rawData s). u_rowIndex r \<noteq> i"
    by (simp add: list_ex_iff)
  then have "map (\<lambda>r. if u_rowIndex r = i then set_field r f v else r) (rawData s) = rawData s"
    by (simp add: map_idI)
  then show ?thesis by (simp add: updateRow_def)
qed

lemma updateMultipleRows_append:
  "updateMultipleRows (us @ vs) s = updateMultipleRows vs (updateMultipleRows us s)"
  by (simp add: updateMultipleRows_def applyUpdates_append)

lemma updateMultipleRows_last_hit:
  assumes "findIndex (\<lambda>r. u_rowIndex r = rowIndex u) (rawData (updateMultipleRows us s)) = Some q"
  shows "rawData (updateMultipleRows (us @ [u]) s) =
           (rawData (updateMultipleRows us s))
             [q := set_field (rawData (updateMultipleRows us s) ! q) (field u) (newValue u)]"
    and "get_field (rawData (updateMultipleRows (us @ [u]) s) ! q) (field u) = Some (JStr (newValue u))"
proof -
  let ?t = "rawData (updateMultipleRows us s)"
  have t: "?t = applyUpdates (rawData s) us" by (simp add: updateMultipleRows_def)
  show eq: "rawData (updateMultipleRows (us @ [u]) s) = ?t[q := set_field (?t ! q) (field u) (newValue u)]"
    using assms applyUpdates_single_hit [of u ?t q]
    by (simp add: updateMultipleRows_def applyUpdates_append)
  from findIndex_Some [OF assms] have "q < length ?t" by simp
  then show "get_field (rawData (updateMultipleRows (us @ [u]) s) ! q) (field u) = Some (JStr (newValue u))"
    by (simp add: eq get_set_field)
qed

lemma updateMultipleRows_skip:
  assumes "\<not> list_ex (\<lambda>r. u_rowIndex r = rowIndex u) (rawData (updateMultipleRows us s))"
  shows "updateMultipleRows (us @ u # vs) s = updateMultipleRows (us @ vs) s"
proof -
  from assms have "findIndex (\<lambda>r. u_rowIndex r = rowIndex u) (applyUpdates (rawData s) us) = None"
    by (simp add: findIndex_None updateMultipleRows_def)
  then show ?thesis
    by (simp add: updateMultipleRows_def applyUpdates_append)
qed

lemma updateMultipleRows_lastEdit:
  assumes "list_all (\<lambda>u. field u \<noteq> ''_rowIndex'') us"
    and "findIndex (\<lambda>r. u_rowIndex r = i) (rawData s) = Some p"
  shows "get_field (rawData (updateMultipleRows us s) ! p) g =
           (case lastEdit us i g of Some v \<Rightarrow> Some (JStr v) | None \<Rightarrow> get_field (rawData s ! p) g)"
  using applyUpdates_lastEdit [OF assms] by (simp add: updateMultipleRows_def)

subsection \<open>Claim C9\<close>

text \<open>
  Every edit that the toolbar builds names one of the literal fields \<^verbatim>\<open>case_id\<close>,
  \<^verbatim>\<open>applicant_name\<close>, \<^verbatim>\<open>email\<close>, \<^verbatim>\<open>phone\<close> and \<^verbatim>\<open>priority\<close>, and every cell edit of the grid
  names one of its seven data fields; none of them is the key \<^verbatim>\<open>_rowIndex\<close>.
\<close>

lemma trimEdits_fields: "list_all (\<lambda>u. field u \<noteq> ''_rowIndex'') (trimEdits rows)"
  by (induction rows) (simp_all add: trimEdits_def split: option.splits jsval.splits)

lemma titleEdits_fields: "list_all (\<lambda>u. field u \<noteq> ''_rowIndex'') (titleEdits rows)"
  by (induction rows) (simp_all add: titleEdits_def Let_def)

lemma phoneNormEdits_fields: "list_all (\<lambda>u. field u \<noteq> ''_rowIndex'') (phoneNormEdits lib rows)"
  by (induction rows) (simp_all add: phoneNormEdits_def Let_def split: option.splits)

lemma priorityEdits_fields: "list_all (\<lambda>u. field u \<noteq> ''_rowIndex'') (priorityEdits rows)"
  by (induction rows) (simp_all add: priorityEdits_def)

lemma editableFields_not_rowIndex: "g \<in> set editableFields \<Longrightarrow> g \<noteq> ''_rowIndex''"
  by (auto simp add: editableFields_def)

lemma map_rowIndex_updateMultipleRows:
  "list_all (\<lambda>u. field u \<noteq> ''_rowIndex'') us \<Longrightarrow>
   map u_rowIndex (rawData (updateMultipleRows us t)) = map u_rowIndex (rawData t)"
  by (simp add: updateMultipleRows_def map_rowIndex_applyUpdates)

lemma map_rowIndex_trimWhitespace:
  "map u_rowIndex (rawData (snd (trimWhitespace rows t))) = map u_rowIndex (rawData t)"
  by (simp add: trimWhitespace_def Let_def map_rowIndex_updateMultipleRows trimEdits_fields)

lemma map_rowIndex_titleCaseNames:
  "map u_rowIndex (rawData (snd (titleCaseNames rows t))) = map u_rowIndex (rawData t)"
  by (simp add: titleCaseNames_def Let_def map_rowIndex_updateMultipleRows titleEdits_fields)

lemma map_rowIndex_normalizePhones:
  "map u_rowIndex (rawData (snd (normalizePhones lib rows t))) = map u_rowIndex (rawData t)"
  by (simp add: normalizePhones_def Let_def map_rowIndex_updateMultipleRows phoneNormEdits_fields)

lemma map_rowIndex_setDefaultPriority:
  "map u_rowIndex (rawData (snd (setDefaultPriority rows t))) = map u_rowIndex (rawData t)"
  by (simp add: setDefaultPriority_def Let_def map_rowIndex_updateMultipleRows priorityEdits_fields)

lemma map_rowIndex_fixAll:
  "map u_rowIndex (rawData (snd (fixAll lib rows t))) = map u_rowIndex (rawData t)"
proof -
  obtain a s1 where 1: "trimWhitespace rows t = (a, s1)" by (cases "trimWhitespace rows t")
  obtain b s2 where 2: "titleCaseNames rows s1 = (b, s2)" by (cases "titleCaseNames rows s1")
  obtain c s3 where 3: "normalizePhones lib rows s2 = (c, s3)"
    by (cases "normalizePhones lib rows s2")
  obtain d s4 where 4: "setDefaultPriority rows s3 = (d, s4)"
    by (cases "setDefaultPriority rows s3")
  have "map u_rowIndex (rawData s1) = map u_rowIndex (rawData t)"
    using map_rowIndex_trimWhitespace [of rows t] by (simp add: 1)
  moreover have "map u_rowIndex (rawData s2) = map u_rowIndex (rawData s1)"
    using map_rowIndex_titleCaseNames [of rows s1] by (simp add: 2)
  moreover have "map u_rowIndex (rawData s3) = map u_rowIndex (rawData s2)"
    using map_rowIndex_normalizePhones [of lib rows s2] by (simp add: 3)
  moreover have "map u_rowIndex (rawData s4) = map u_rowIndex (rawData s3)"
    using map_rowIndex_setDefaultPriority [of rows s3] by (simp add: 4)
  ultimately show ?thesis by (simp add: fixAll_def 1 2 3 4)
qed

text \<open>
  C9: \<^verbatim>\<open>setRawData\<close> gives every row its 0-based position as \<^verbatim>\<open>_rowIndex\<close>, and these indices are
  pairwise distinct. No update of a session changes the \<^verbatim>\<open>_rowIndex\<close> of any row: a cell edit of
  the grid (\<^verbatim>\<open>handleCellChange\<close> with the field of one of the seven editable columns), each of
  the four bulk operations of the toolbar and their sequence \<^verbatim>\<open>fixAll\<close>, whatever rows the
  toolbar read, leave the list of the \<^verbatim>\<open>_rowIndex\<close> values of \<^verbatim>\<open>rawData\<close> as it was. This is so
  because these callers name data fields only: \<^verbatim>\<open>updateRow\<close> with a field other than the key
  \<^verbatim>\<open>_rowIndex\<close>, and \<^verbatim>\<open>updateMultipleRows\<close> with no edit of that key, keep every \<^verbatim>\<open>_rowIndex\<close>.
\<close>

theorem rowIndex_assigned_and_kept:
  "length (rawData (setRawData data hs fname s)) = length data
   \<and> (i < length data \<longrightarrow> u_rowIndex (rawData (setRawData data hs fname s) ! i) = JNum i)
   \<and> distinct (map u_rowIndex (rawData (setRawData data hs fname s)))
   \<and> (fld \<noteq> ''_rowIndex'' \<longrightarrow>
        map u_rowIndex (rawData (updateRow j fld v t)) = map u_rowIndex (rawData t))
   \<and> (list_all (\<lambda>u. field u \<noteq> ''_rowIndex'') us \<longrightarrow>
        map u_rowIndex (rawData (updateMultipleRows us t)) = map u_rowIndex (rawData t))
   \<and> (g \<in> set editableFields \<longrightarrow>
        map u_rowIndex (rawData (handleCellChange j g v t)) = map u_rowIndex (rawData t))
   \<and> map u_rowIndex (rawData (snd (trimWhitespace rows t))) = map u_rowIndex (rawData t)
   \<and> map u_rowIndex (rawData (snd (titleCaseNames rows t))) = map u_rowIndex (rawData t)
   \<and> map u_rowIndex (rawData (snd (normalizePhones lib rows t))) = map u_rowIndex (rawData t)
   \<and> map u_rowIndex (rawData (snd (setDefaultPriority rows t))) = map u_rowIndex (rawData t)
   \<and> map u_rowIndex (rawData (snd (fixAll lib rows t))) = map u_rowIndex (rawData t)"
proof (intro conjI impI)
  show "length (rawData (setRawData data hs fname s)) = length data"
    by (simp add: setRawData_def length_assignRowIndex)
  show "u_rowIndex (rawData (setRawData data hs fname s) ! i) = JNum i" if "i < length data"
    using that by (simp add: setRawData_def nth_assignRowIndex)
  show "distinct (map u_rowIndex (rawData (setRawData data hs fname s)))"
    by (simp add: setRawData_def distinct_assignRowIndex)
  show "map u_rowIndex (rawData (updateRow j fld v t)) = map u_rowIndex (rawData t)"
    if "fld \<noteq> ''_rowIndex''"
    using that by (rule map_rowIndex_updateRow)
  show "map u_rowIndex (rawData (updateMultipleRows us t)) = map u_rowIndex (rawData t)"
    if "list_all (\<lambda>u. field u \<noteq> ''_rowIndex'') us"
    using that by (rule map_rowIndex_updateMultipleRows)
  show "map u_rowIndex (rawData (handleCellChange j g v t)) = map u_rowIndex (rawData t)"
    if "g \<in> set editableFields"
    unfolding handleCellChange_def
    using editableFields_not_rowIndex [OF that] by (rule map_rowIndex_updateRow)
  show "map u_rowIndex (rawData (snd (trimWhitespace rows t))) = map u_rowIndex (rawData t)"
    by (rule map_rowIndex_trimWhitespace)
  show "map u_rowIndex (rawData (snd (titleCaseNames rows t))) = map u_rowIndex (rawData t)"
    by (rule map_rowIndex_titleCaseNames)
  show "map u_rowIndex (rawData (snd (normalizePhones lib rows t))) = map u_rowIndex (rawData t)"
    by (rule map_rowIndex_normalizePhones)
  show "map u_rowIndex (rawData (snd (setDefaultPriority rows t))) = map u_rowIndex (rawData t)"
    by (rule map_rowIndex_setDefaultPriority)
  show "map u_rowIndex (rawData (snd (fixAll lib rows t))) = map u_rowIndex (rawData t)"
    by (rule map_rowIndex_fixAll)
qed

theorem rowIndex_assigned_and_kept_witness:
  "(1::nat) < length [sampleRow ''C-1'' ''Ann'', sampleRow ''C-2'' ''Bob'']
   \<and> ''phone'' \<noteq> ''_rowIndex''
   \<and> list_all (\<lambda>u. field u \<noteq> ''_rowIndex'')
        [\<lparr>rowIndex = JNum 0, field = ''priority'', newValue = ''HIGH''\<rparr>]
   \<and> ''dob'' \<in> set editableFields
   \<and> u_rowIndex (rawData (setRawData [sampleRow ''C-1'' ''Ann'', sampleRow ''C-2'' ''Bob'']
        [] ''cases.csv'' initialState) ! 1) = JNum 1
   \<and> map u_rowIndex (rawData (updateRow (JNum 1) ''phone'' ''9876543210''
        (setRawData [sampleRow ''C-1'' ''Ann'', sampleRow ''C-2'' ''Bob''] [] ''cases.csv'' initialState)))
       = [JNum 0, JNum 1]
   \<and> map u_rowIndex (rawData (updateMultipleRows
        [\<lparr>rowIndex = JNum 0, field = ''priority'', newValue = ''HIGH''\<rparr>]
        (setRawData [sampleRow ''C-1'' ''Ann'', sampleRow ''C-2'' ''Bob''] [] ''cases.csv'' initialState)))
       = [JNum 0, JNum 1]
   \<and> map u_rowIndex (rawData (handleCellChange (JNum 1) ''dob'' ''9876543210''
        (setRawData [sampleRow ''C-1'' ''Ann'', sampleRow ''C-2'' ''Bob''] [] ''cases.csv'' initialState)))
       = [JNum 0, JNum 1]"
  using rowIndex_assigned_and_kept
    [of "[sampleRow ''C-1'' ''Ann'', sampleRow ''C-2'' ''Bob'']" "[]" "''cases.csv''" initialState
        1 "''phone''" "JNum 1" "''9876543210''"
        "setRawData [sampleRow ''C-1'' ''Ann'', sampleRow ''C-2'' ''Bob''] [] ''cases.csv'' initialState"
        "[\<lparr>rowIndex = JNum 0, field = ''priority'', newValue = ''HIGH''\<rparr>]" "''dob''"]
  by (simp add: setRawData_def editableFields_def)

subsection \<open>Claim C10\<close>

text \<open>
  C10: \<^verbatim>\<open>updateRow(rowIndex, field, value)\<close> touches nothing but \<^verbatim>\<open>rawData\<close>, keeps its length,
  leaves every row with another \<^verbatim>\<open>_rowIndex\<close> as it is, and in a row with that \<^verbatim>\<open>_rowIndex\<close>
  rebinds the named key only; with no such row the state is unchanged.
  \<^verbatim>\<open>updateMultipleRows\<close> applies its edits in list order: running a list is running its
  prefix and then the rest; the last edit that reaches a row decides the value of its field
  whatever came before; with no edit of the key \<^verbatim>\<open>_rowIndex\<close>, the field \<open>g\<close> of the row with
  index \<open>i\<close> ends as the last edit naming \<open>(i, g)\<close> says, or as it was; and an edit whose
  \<^verbatim>\<open>rowIndex\<close> no row carries is skipped.
\<close>

theorem store_updates_frame:
  "updateRow i f v s = s\<lparr>rawData := rawData (updateRow i f v s)\<rparr>
   \<and> length (rawData (updateRow i f v s)) = length (rawData s)
   \<and> (k < length (rawData s) \<and> u_rowIndex (rawData s ! k) \<noteq> i \<longrightarrow>
        rawData (updateRow i f v s) ! k = rawData s ! k)
   \<and> (p < length (rawData s) \<and> u_rowIndex (rawData s ! p) = i \<longrightarrow>
        get_field (rawData (updateRow i f v s) ! p) g =
          (if g = f then Some (JStr v) else get_field (rawData s ! p) g))
   \<and> (\<not> list_ex (\<lambda>r. u_rowIndex r = a) (rawData s) \<longrightarrow> updateRow a f v s = s)
   \<and> updateMultipleRows (us @ vs) s = updateMultipleRows vs (updateMultipleRows us s)
   \<and> (findIndex (\<lambda>r. u_rowIndex r = rowIndex u) (rawData (updateMultipleRows us s)) = Some q \<longrightarrow>
        rawData (updateMultipleRows (us @ [u]) s) =
          (rawData (updateMultipleRows us s))
            [q := set_field (rawData (updateMultipleRows us s) ! q) (field u) (newValue u)]
        \<and> get_field (rawData (updateMultipleRows (us @ [u]) s) ! q) (field u) = Some (JStr (newValue u)))
   \<and> (list_all (\<lambda>e. field e \<noteq> ''_rowIndex'') us
        \<and> findIndex (\<lambda>r. u_rowIndex r = i) (rawData s) = Some p \<longrightarrow>
        get_field (rawData (updateMultipleRows us s) ! p) g =
          (case lastEdit us i g of Some x \<Rightarrow> Some (JStr x) | None \<Rightarrow> get_field (rawData s ! p) g))
   \<and> (\<not> list_ex (\<lambda>r. u_rowIndex r = rowIndex w) (rawData (updateMultipleRows us s)) \<longrightarrow>
        updateMultipleRows (us @ w # vs) s = updateMultipleRows (us @ vs) s)"
proof (intro conjI impI; (elim conjE)?)
  show "updateRow i f v s = s\<lparr>rawData := rawData (updateRow i f v s)\<rparr>"
    by (simp add: updateRow_def)
  show "length (rawData (updateRow i f v s)) = length (rawData s)"
    by (simp add: updateRow_def)
  show "rawData (updateRow i f v s) ! k = rawData s ! k"
    if "k < length (rawData s)" "u_rowIndex (rawData s ! k) \<noteq> i"
    using that by (rule updateRow_other_row)
  show "get_field (rawData (updateRow i f v s) ! p) g =
          (if g = f then Some (JStr v) else get_field (rawData s ! p) g)"
    if "p < length (rawData s)" "u_rowIndex (rawData s ! p) = i"
    using that by (rule updateRow_hit_row)
  show "updateRow a f v s = s" if "\<not> list_ex (\<lambda>r. u_rowIndex r = a) (rawData s)"
    using that by (rule updateRow_absent)
  show "updateMultipleRows (us @ vs) s = updateMultipleRows vs (updateMultipleRows us s)"
    by (rule updateMultipleRows_append)
  show "rawData (updateMultipleRows (us @ [u]) s) =
          (rawData (updateMultipleRows us s))
            [q := set_field (rawData (updateMultipleRows us s) ! q) (field u) (newValue u)]"
    if "findIndex (\<lambda>r. u_rowIndex r = rowIndex u) (rawData (updateMultipleRows us s)) = Some q"
    using that by (rule updateMultipleRows_last_hit(1))
  show "get_field (rawData (updateMultipleRows (us @ [u]) s) ! q) (field u) = Some (JStr (newValue u))"
    if "findIndex (\<lambda>r. u_rowIndex r = rowIndex u) (rawData (updateMultipleRows us s)) = Some q"
    using that by (rule updateMultipleRows_last_hit(2))
  show "get_field (rawData (updateMultipleRows us s) ! p) g =
          (case lastEdit us i g of Some x \<Rightarrow> Some (JStr x) | None \<Rightarrow> get_field (rawData s ! p) g)"
    if "list_all (\<lambda>e. field e \<noteq> ''_rowIndex'') us"
      "findIndex (\<lambda>r. u_rowIndex r = i) (rawData s) = Some p"
    using that by (rule updateMultipleRows_lastEdit)
  show "updateMultipleRows (us @ w # vs) s = updateMultipleRows (us @ vs) s"
    if "\<not> list_ex (\<lambda>r. u_rowIndex r = rowIndex w) (rawData (updateMultipleRows us s))"
    using that by (rule updateMultipleRows_skip)
qed

theorem store_updates_frame_witness:
  "(0::nat) < length (rawData twoRows) \<and> u_rowIndex (rawData twoRows ! 0) \<noteq> JNum 1
   \<and> (1::nat) < length (rawData twoRows) \<and> u_rowIndex (rawData twoRows ! 1) = JNum 1
   \<and> \<not> list_ex (\<lambda>r. u_rowIndex r = JNum 5) (rawData twoRows)
   \<and> findIndex (\<lambda>r. u_rowIndex r = JNum 1) (rawData (updateMultipleRows phoneEdits twoRows)) = Some 1
   \<and> list_all (\<lambda>e. field e \<noteq> ''_rowIndex'') phoneEdits
   \<and> findIndex (\<lambda>r. u_rowIndex r = JNum 1) (rawData twoRows) = Some 1
   \<and> \<not> list_ex (\<lambda>r. u_rowIndex r = JNum 9) (rawData (updateMultipleRows phoneEdits twoRows))
   \<and> rawData (updateRow (JNum 1) ''phone'' ''+919876543210'' twoRows) ! 0 = rawData twoRows ! 0
   \<and> get_field (rawData (updateRow (JNum 1) ''phone'' ''+919876543210'' twoRows) ! 1) ''phone''
        = Some (JStr ''+919876543210'')
   \<and> updateRow (JNum 5) ''phone'' ''+919876543210'' twoRows = twoRows
   \<and> get_field (rawData (updateMultipleRows
        (phoneEdits @ [\<lparr>rowIndex = JNum 1, field = ''phone'', newValue = ''333''\<rparr>]) twoRows) ! 1) ''phone''
        = Some (JStr ''333'')
   \<and> get_field (rawData (updateMultipleRows phoneEdits twoRows) ! 1) ''phone'' = Some (JStr ''222'')
   \<and> updateMultipleRows (phoneEdits @ \<lparr>rowIndex = JNum 9, field = ''phone'', newValue = ''444''\<rparr> # []) twoRows
        = updateMultipleRows phoneEdits twoRows"
  using store_updates_frame
    [of "JNum 1" "''phone''" "''+919876543210''" twoRows 0 1 "''phone''" "JNum 5" phoneEdits "[]"
        "\<lparr>rowIndex = JNum 1, field = ''phone'', newValue = ''333''\<rparr>" 1
        "\<lparr>rowIndex = JNum 9, field = ''phone'', newValue = ''444''\<rparr>"]
  by (simp add: twoRows_def phoneEdits_def setRawData_def updateRow_def updateMultipleRows_def
      lastEdit_def get_field_def set_field_def sampleRow_def initialState_def)

section \<open>Normalisation helpers\<close>

lemma dropWhile_fixed: "xs = [] \<or> \<not> P (hd xs) \<Longrightarrow> dropWhile P xs = xs"
  by (cases xs) auto

lemma trim_idem: "trim (trim s) = trim s"
proof -
  let ?t = "dropWhile isWhitespace s"
  let ?r = "dropWhile isWhitespace (rev ?t)"
  have r: "dropWhile isWhitespace ?r = ?r" by (rule dropWhile_idem)
  have "dropWhile isWhitespace (rev ?r) = rev ?r"
  proof (cases "rev ?r = []")
    case True
    then have e: "?r = []" by (metis rev_is_Nil_conv)
    show ?thesis unfolding e by simp
  next
    case False
    have "rev ?t = takeWhile isWhitespace (rev ?t) @ ?r" by simp
    then have "?t = rev ?r @ rev (takeWhile isWhitespace (rev ?t))"
      by (metis rev_append rev_rev_ident)
    with False have hd: "hd (rev ?r) = hd ?t" by (metis hd_append2)
    from False have "?t \<noteq> []" by (metis dropWhile.simps(1) rev_is_Nil_conv)
    then have "\<not> isWhitespace (hd ?t)" by (rule hd_dropWhile)
    with hd show ?thesis by (simp add: dropWhile_fixed)
  qed
  then show ?thesis by (simp add: trim_def r)
qed

lemma normalizePhone_alt:
  "normalizePhone lib ph =
     (if trim ph = [] then None
      else case isValidPhoneNumber lib (trim ph) (Some ''IN'') of
          None \<Rightarrow> None
        | Some True \<Rightarrow> parseE164 lib (trim ph) (Some ''IN'')
        | Some False \<Rightarrow>
            (case isValidPhoneNumber lib (trim ph) None of
               None \<Rightarrow> None
             | Some True \<Rightarrow> parseE164 lib (trim ph) None
             | Some False \<Rightarrow> None))"
proof (cases "ph = []")
  case True
  then show ?thesis by (simp add: normalizePhone_def trim_def)
next
  case False
  then show ?thesis by (simp add: normalizePhone_def Let_def)
qed

subsection \<open>Claim C8\<close>

text \<open>
  C8: \<^verbatim>\<open>normalizePhone\<close> works on the trimmed input and returns \<^verbatim>\<open>null\<close> (\<open>None\<close>) when nothing
  is left of it. Otherwise the number is first checked with the default country India and,
  if valid, its E.164 form under that country is returned; if not, it is checked without a
  default country and the E.164 form of that parse is returned; when both checks fail the
  result is \<^verbatim>\<open>null\<close>, and so it is when the library throws. The function is total: it never
  throws. The phone library is a parameter, so the four examples are stated on what the
  library answers for these inputs: "9876543210" gives "+919876543210", "+919876543210"
  gives itself, and the empty string and "12345" give \<^verbatim>\<open>null\<close>.
\<close>

theorem normalizePhone_two_stage:
  "normalizePhone lib ph = normalizePhone lib (trim ph)
   \<and> (trim e = [] \<longrightarrow> normalizePhone lib e = None)
   \<and> (trim a \<noteq> [] \<and> isValidPhoneNumber lib (trim a) (Some ''IN'') = Some True \<longrightarrow>
        normalizePhone lib a = parseE164 lib (trim a) (Some ''IN''))
   \<and> (trim b \<noteq> [] \<and> isValidPhoneNumber lib (trim b) (Some ''IN'') = Some False
        \<and> isValidPhoneNumber lib (trim b) None = Some True \<longrightarrow>
        normalizePhone lib b = parseE164 lib (trim b) None)
   \<and> (trim c \<noteq> [] \<and> isValidPhoneNumber lib (trim c) (Some ''IN'') = Some False
        \<and> isValidPhoneNumber lib (trim c) None = Some False \<longrightarrow>
        normalizePhone lib c = None)
   \<and> (isValidPhoneNumber lib (trim d) (Some ''IN'') = None \<longrightarrow> normalizePhone lib d = None)
   \<and> normalizePhone lib '''' = None
   \<and> (isValidPhoneNumber lib ''9876543210'' (Some ''IN'') = Some True
        \<and> parseE164 lib ''9876543210'' (Some ''IN'') = Some ''+919876543210'' \<longrightarrow>
        normalizePhone lib ''9876543210'' = Some ''+919876543210'')
   \<and> (isValidPhoneNumber lib ''+919876543210'' (Some ''IN'') = Some True
        \<and> parseE164 lib ''+919876543210'' (Some ''IN'') = Some ''+919876543210'' \<longrightarrow>
        normalizePhone lib ''+919876543210'' = Some ''+919876543210'')
   \<and> (isValidPhoneNumber lib ''12345'' (Some ''IN'') = Some False
        \<and> isValidPhoneNumber lib ''12345'' None = Some False \<longrightarrow>
        normalizePhone lib ''12345'' = None)"
proof -
  have t1: "trim ''9876543210'' = ''9876543210''"
    and t2: "trim ''+919876543210'' = ''+919876543210''"
    and t3: "trim ''12345'' = ''12345''"
    by (simp_all add: trim_def isWhitespace_def)
  have "normalizePhone lib ph = normalizePhone lib (trim ph)"
    by (simp add: normalizePhone_alt trim_idem split: option.splits bool.splits)
  moreover have "normalizePhone lib e = None" if "trim e = []"
    using that by (simp add: normalizePhone_alt)
  moreover have "normalizePhone lib a = parseE164 lib (trim a) (Some ''IN'')"
    if "trim a \<noteq> []" "isValidPhoneNumber lib (trim a) (Some ''IN'') = Some True"
    using that by (simp add: normalizePhone_alt)
  moreover have "normalizePhone lib b = parseE164 lib (trim b) None"
    if "trim b \<noteq> []" "isValidPhoneNumber lib (trim b) (Some ''IN'') = Some False"
      "isValidPhoneNumber lib (trim b) None = Some True"
    using that by (simp add: normalizePhone_alt)
  moreover have "normalizePhone lib c = None"
    if "trim c \<noteq> []" "isValidPhoneNumber lib (trim c) (Some ''IN'') = Some False"
      "isValidPhoneNumber lib (trim c) None = Some False"
    using that by (simp add: normalizePhone_alt)
  moreover have "normalizePhone lib d = None"
    if "isValidPhoneNumber lib (trim d) (Some ''IN'') = None"
    using that by (simp add: normalizePhone_alt)
  moreover have "normalizePhone lib '''' = None"
    by (simp add: normalizePhone_def)
  moreover have "normalizePhone lib ''9876543210'' = Some ''+919876543210''"
    if "isValidPhoneNumber lib ''9876543210'' (Some ''IN'') = Some True"
      "parseE164 lib ''9876543210'' (Some ''IN'') = Some ''+919876543210''"
    using that by (simp add: normalizePhone_alt t1)
  moreover have "normalizePhone lib ''+919876543210'' = Some ''+919876543210''"
    if "isValidPhoneNumber lib ''+919876543210'' (Some ''IN'') = Some True"
      "parseE164 lib ''+919876543210'' (Some ''IN'') = Some ''+919876543210''"
    using that by (simp add: normalizePhone_alt t2)
  moreover have "normalizePhone lib ''12345'' = None"
    if "isValidPhoneNumber lib ''12345'' (Some ''IN'') = Some False"
      "isValidPhoneNumber lib ''12345'' None = Some False"
    using that by (simp add: normalizePhone_alt t3)
  ultimately show ?thesis by blast
qed

theorem normalizePhone_two_stage_witness:
  "trim ''   '' = []
   \<and> trim ''9123456780'' \<noteq> []
   \<and> isValidPhoneNumber sampleLib (trim ''9123456780'') (Some ''IN'') = Some True
   \<and> trim ''+14155552671'' \<noteq> []
   \<and> isValidPhoneNumber sampleLib (trim ''+14155552671'') (Some ''IN'') = Some False
   \<and> isValidPhoneNumber sampleLib (trim ''+14155552671'') None = Some True
   \<and> trim ''call me'' \<noteq> []
   \<and> isValidPhoneNumber sampleLib (trim ''call me'') (Some ''IN'') = Some False
   \<and> isValidPhoneNumber sampleLib (trim ''call me'') None = Some False
   \<and> isValidPhoneNumber sampleLib (trim (replicate 251 CHR ''1'')) (Some ''IN'') = None
   \<and> isValidPhoneNumber sampleLib ''9876543210'' (Some ''IN'') = Some True
   \<and> parseE164 sampleLib ''9876543210'' (Some ''IN'') = Some ''+919876543210''
   \<and> isValidPhoneNumber sampleLib ''+919876543210'' (Some ''IN'') = Some True
   \<and> parseE164 sampleLib ''+919876543210'' (Some ''IN'') = Some ''+919876543210''
   \<and> isValidPhoneNumber sampleLib ''12345'' (Some ''IN'') = Some False
   \<and> isValidPhoneNumber sampleLib ''12345'' None = Some False
   \<and> normalizePhone sampleLib ''   '' = None
   \<and> normalizePhone sampleLib ''9123456780'' = Some ''+919123456780''
   \<and> normalizePhone sampleLib ''+14155552671'' = Some ''+14155552671''
   \<and> normalizePhone sampleLib ''call me'' = None
   \<and> normalizePhone sampleLib (replicate 251 CHR ''1'') = None
   \<and> normalizePhone sampleLib '''' = None
   \<and> normalizePhone sampleLib ''9876543210'' = Some ''+919876543210''
   \<and> normalizePhone sampleLib ''+919876543210'' = Some ''+919876543210''
   \<and> normalizePhone sampleLib ''12345'' = None"
proof -
  have ones: "trim (replicate 251 CHR ''1'') = replicate 251 CHR ''1''"
  proof -
    have "dropWhile isWhitespace (replicate 251 CHR ''1'') = replicate 251 CHR ''1''"
      by (rule dropWhile_fixed) (simp add: isWhitespace_def)
    then show ?thesis by (simp add: trim_def)
  qed
  show ?thesis
    using normalizePhone_two_stage
      [of sampleLib "'' 98765 43210 ''" "''   ''" "''9123456780''" "''+14155552671''" "''call me''"
          "replicate 251 CHR ''1''"]
    by (simp add: ones normalizePhone_alt sampleLib_def trim_def isWhitespace_def
        isIndianMobile_def isPlusDigits_def isDigits_def)
qed

section \<open>Correction Engine\<close>

lemma updateMultipleRows_Nil: "updateMultipleRows [] s = s"
  by (simp add: updateMultipleRows_def)

lemma commit_edits: "(if length us > 0 then updateMultipleRows us s else s) = updateMultipleRows us s"
  by (simp add: updateMultipleRows_Nil)

lemma trimWhitespace_eq: "trimWhitespace rows s = (length (trimEdits rows), updateMultipleRows (trimEdits rows) s)"
  unfolding trimWhitespace_def Let_def commit_edits ..

lemma titleCaseNames_eq: "titleCaseNames rows s = (length (titleEdits rows), updateMultipleRows (titleEdits rows) s)"
  unfolding titleCaseNames_def Let_def commit_edits ..

lemma normalizePhones_eq:
  "normalizePhones lib rows s = (length (phoneNormEdits lib rows), updateMultipleRows (phoneNormEdits lib rows) s)"
  unfolding normalizePhones_def Let_def commit_edits ..

lemma setDefaultPriority_eq:
  "setDefaultPriority rows s = (length (priorityEdits rows), updateMultipleRows (priorityEdits rows) s)"
  unfolding setDefaultPriority_def Let_def commit_edits ..

subsection \<open>Claim C3\<close>

text \<open>
  C3, as stated, fails in its last part: the four callbacks read the \<^verbatim>\<open>rawData\<close> of the render
  that created them, not the store they write to. For the one row named " John Doe" the
  trimming writes "John Doe"; the title-casing still reads " John Doe", finds its title-cased
  form different and counts a second edit, so \<^verbatim>\<open>fixAll\<close> returns 2. Had the title-casing
  observed the trimmed name, it would have found nothing to do and the total would be 1.
\<close>

theorem fixAll_observing_counterexample:
  "fst (fixAll sampleLib (rawData paddedName) paddedName) = 2
   \<and> fst (fixAll_observing sampleLib paddedName) = 1
   \<and> fst (titleCaseNames (rawData paddedName) (snd (trimWhitespace (rawData paddedName) paddedName))) = 1
   \<and> map applicant_name (rawData (snd (trimWhitespace (rawData paddedName) paddedName))) = [''John Doe'']
   \<and> titleCase ''John Doe'' = ''John Doe''"
  by (simp add: fixAll_def fixAll_observing_def paddedName_def setRawData_def sampleRow_def
      trimWhitespace_def titleCaseNames_def normalizePhones_def setDefaultPriority_def
      trimEdits_def titleEdits_def phoneNormEdits_def priorityEdits_def get_field_def
      titleCase_def trim_def isWhitespace_def toUpperCase_def toLowerCase_def
      lowerLetters_def upperLetters_def
      updateMultipleRows_def set_field_def)

text \<open>
  C3 (amended): a single fix-all invocation runs trim-whitespace, title-case-names,
  normalize-phones and default-priority in this order and returns the sum of the four edit
  counts. Every operation computes its edits from the row set \<open>rows\<close> that the toolbar was
  rendered with, whatever the operations before it wrote; the edits are committed to the
  store in the order of the operations, so the store ends as one bulk update with the four
  edit lists in sequence.
\<close>

theorem fixAll_snapshot:
  "fst (fixAll lib rows s) =
     length (trimEdits rows) + length (titleEdits rows)
       + length (phoneNormEdits lib rows) + length (priorityEdits rows)
   \<and> snd (fixAll lib rows s) =
       updateMultipleRows (priorityEdits rows)
         (updateMultipleRows (phoneNormEdits lib rows)
           (updateMultipleRows (titleEdits rows)
             (updateMultipleRows (trimEdits rows) s)))
   \<and> snd (fixAll lib rows s) =
       updateMultipleRows
         (trimEdits rows @ titleEdits rows @ phoneNormEdits lib rows @ priorityEdits rows) s"
  by (simp add: fixAll_def trimWhitespace_eq titleCaseNames_eq normalizePhones_eq
      setDefaultPriority_eq updateMultipleRows_append)

section \<open>Row Validator\<close>

lemma all_row_duplicateErrors: "list_all (\<lambda>e. row e = k) (duplicateErrors k r seen)"
  by (cases "seen (case_id r)") (simp_all add: duplicateErrors_def Let_def cong del: if_weak_cong)

lemma all_row_schemaErrors: "list_all (\<lambda>e. row e = k) (schemaErrors env k r)"
  by (simp add: schemaErrors_def list_all_iff)

lemma all_row_categoryError: "list_all (\<lambda>e. row e = k) (categoryError k r)"
  by (simp add: categoryError_def)

lemma all_row_priorityError: "list_all (\<lambda>e. row e = k) (priorityError k r)"
  by (simp add: priorityError_def)

lemma row_duplicateErrors: "e \<in> set (duplicateErrors k r seen) \<Longrightarrow> row e = k"
  using all_row_duplicateErrors [of k r seen] unfolding list_all_iff by blast

lemma row_schemaErrors: "e \<in> set (schemaErrors env k r) \<Longrightarrow> row e = k"
  using all_row_schemaErrors [of k env r] unfolding list_all_iff by blast

lemma row_categoryError: "e \<in> set (categoryError k r) \<Longrightarrow> row e = k"
  using all_row_categoryError [of k r] unfolding list_all_iff by blast

lemma row_priorityError: "e \<in> set (priorityError k r) \<Longrightarrow> row e = k"
  using all_row_priorityError [of k r] unfolding list_all_iff by blast

lemma row_validateRows:
  "e \<in> set (validateRows env k seen rs) \<Longrightarrow> k \<le> row e \<and> row e < k + length rs"
proof (induction rs arbitrary: k seen)
  case Nil
  then show ?case by simp
next
  case (Cons r rs)
  from Cons.prems consider
    "e \<in> set (duplicateErrors k r seen)" | "e \<in> set (schemaErrors env k r)"
    | "e \<in> set (categoryError k r)" | "e \<in> set (priorityError k r)"
    | "e \<in> set (validateRows env (Suc k) (seenIdsStep k r seen) rs)"
    by auto
  then show ?case
  proof cases
    case 1
    then show ?thesis by (simp add: row_duplicateErrors)
  next
    case 2
    then show ?thesis by (simp add: row_schemaErrors)
  next
    case 3
    then show ?thesis by (simp add: row_categoryError)
  next
    case 4
    then show ?thesis by (simp add: row_priorityError)
  next
    case 5
    from Cons.IH [OF this] show ?thesis by simp
  qed
qed

lemma filter_row_same:
  assumes "\<And>e. e \<in> set es \<Longrightarrow> row e = k"
  shows "filter (\<lambda>e. row e = k) es = es"
  using assms by (simp add: filter_id_conv)

lemma filter_row_other:
  assumes "\<And>e. e \<in> set es \<Longrightarrow> row e \<noteq> k"
  shows "filter (\<lambda>e. row e = k) es = []"
  using assms by (simp add: filter_empty_conv)

lemma validateRows_append:
  "validateRows env k seen (pre @ post) =
     validateRows env k seen pre @ validateRows env (k + length pre) (seenIdsAfter k seen pre) post"
  by (induction pre arbitrary: k seen) simp_all

lemma filter_row_validateRows:
  assumes "j < length rs"
  shows "filter (\<lambda>e. row e = k + j) (validateRows env k seen rs) =
           duplicateErrors (k + j) (rs ! j) (seenIdsAfter k seen (take j rs))
           @ schemaErrors env (k + j) (rs ! j)
           @ categoryError (k + j) (rs ! j) @ priorityError (k + j) (rs ! j)"
proof -
  let ?pre = "take j rs" and ?post = "drop (Suc j) rs"
  let ?seen = "seenIdsAfter k seen ?pre"
  from assms have split: "rs = ?pre @ (rs ! j) # ?post" by (rule id_take_nth_drop)
  from assms have len: "length ?pre = j" by simp
  have "validateRows env k seen rs =
          validateRows env k seen ?pre @ validateRows env (k + j) ?seen ((rs ! j) # ?post)"
    using validateRows_append [of env k seen ?pre "(rs ! j) # ?post"] split len by simp
  moreover have "filter (\<lambda>e. row e = k + j) (validateRows env k seen ?pre) = []"
  proof (rule filter_row_other)
    fix e assume "e \<in> set (validateRows env k seen ?pre)"
    from row_validateRows [OF this] len show "row e \<noteq> k + j" by simp
  qed
  moreover have "filter (\<lambda>e. row e = k + j)
      (validateRows env (Suc (k + j)) (seenIdsStep (k + j) (rs ! j) ?seen) ?post) = []"
  proof (rule filter_row_other)
    fix e assume "e \<in> set (validateRows env (Suc (k + j)) (seenIdsStep (k + j) (rs ! j) ?seen) ?post)"
    from row_validateRows [OF this] show "row e \<noteq> k + j" by simp
  qed
  ultimately show ?thesis
    by (simp add: filter_row_same row_duplicateErrors row_schemaErrors row_categoryError
        row_priorityError)
qed

lemma sorted_row_validateRows: "sorted (map row (validateRows env k seen rs))"
proof (induction rs arbitrary: k seen)
  case Nil
  then show ?case by simp
next
  case (Cons r rs)
  let ?hd = "duplicateErrors k r seen @ schemaErrors env k r @ categoryError k r @ priorityError k r"
  have hd: "\<forall>e\<in>set ?hd. row e = k"
    by (auto simp: row_duplicateErrors row_schemaErrors row_categoryError row_priorityError)
  then have "map row ?hd = replicate (length ?hd) k"
    by (simp only: map_eq_conv map_replicate_const [symmetric]) 
  then have "sorted (map row ?hd)" by (simp only: sorted_replicate)
  moreover have "\<forall>x\<in>set (map row ?hd). \<forall>y\<in>set (map row (validateRows env (Suc k) (seenIdsStep k r seen) rs)). x \<le> y"
    using hd row_validateRows [of _ env "Suc k" "seenIdsStep k r seen" rs] by fastforce
  ultimately have "sorted (map row ?hd @ map row (validateRows env (Suc k) (seenIdsStep k r seen) rs))"
    using Cons.IH [of "Suc k" "seenIdsStep k r seen"] by (simp only: sorted_append)
  then show ?case by simp
qed

lemma seenIdsAfter_lookup:
  assumes "c \<noteq> []"
  shows "seenIdsAfter k seen pre c =
           (case seen c of
              Some f \<Rightarrow> Some f
            | None \<Rightarrow> map_option (\<lambda>i. k + i) (findIndex (\<lambda>r. case_id r = c) pre))"
proof (induction pre arbitrary: k seen)
  case Nil
  then show ?case by (simp split: option.splits)
next
  case (Cons r pre)
  show ?case
  proof (cases "case_id r = c")
    case True
    with assms show ?thesis
      by (simp add: Cons.IH seenIdsStep_def split: option.splits)
  next
    case False
    then have "seenIdsStep k r seen c = seen c"
      by (simp add: seenIdsStep_def Let_def split: option.splits)
    with False show ?thesis
      by (cases "findIndex (\<lambda>r. case_id r = c) pre") (simp_all add: Cons.IH split: option.splits)
  qed
qed

lemma findIndex_take:
  assumes "findIndex P xs = Some i"
  shows "findIndex P (take j xs) = (if i < j then Some i else None)"
  using assms
proof (induction xs arbitrary: i j)
  case Nil
  then show ?case by simp
next
  case (Cons x xs)
  show ?case
  proof (cases j)
    case 0
    then show ?thesis by simp
  next
    case (Suc j')
    show ?thesis
    proof (cases "P x")
      case True
      with Cons.prems Suc show ?thesis by simp
    next
      case False
      with Cons.prems obtain i' where i': "findIndex P xs = Some i'" "i = Suc i'" by auto
      from Cons.IH [OF i'(1), of j'] False Suc i'(2) show ?thesis by simp
    qed
  qed
qed

lemma findIndex_first:
  assumes "j < length xs" and "P (xs ! j)"
  shows "\<exists>i\<le>j. findIndex P xs = Some i"
proof -
  from assms have "list_ex P xs" by (auto simp: list_ex_iff)
  then obtain i where i: "findIndex P xs = Some i"
    using findIndex_None [of P xs] by (cases "findIndex P xs") auto
  from findIndex_Some [OF i] assms(2) have "i \<le> j" by (meson not_le)
  with i show ?thesis by blast
qed

lemma filter_dup_duplicateErrors:
  "filter isDuplicateError (duplicateErrors k r seen) = duplicateErrors k r seen"
  by (cases "seen (case_id r)")
    (simp_all add: duplicateErrors_def Let_def isDuplicateError_def cong del: if_weak_cong)

lemma filter_dup_schemaErrors: "filter isDuplicateError (schemaErrors env k r) = []"
  by (simp add: schemaErrors_def isDuplicateError_def CaseSchema_issues_def caseIdIssues_def
      applicantNameIssues_def dobIssues_def emailIssues_def phoneIssues_def categoryIssues_def
      priorityIssues_def mappedField_def split: option.splits)

lemma filter_dup_categoryError: "filter isDuplicateError (categoryError k r) = []"
  by (simp add: categoryError_def isDuplicateError_def)

lemma filter_dup_priorityError: "filter isDuplicateError (priorityError k r) = []"
  by (simp add: priorityError_def isDuplicateError_def)

lemma duplicates_of_row:
  assumes "j < length rows"
  shows "filter (\<lambda>e. row e = j \<and> isDuplicateError e) (validateData env rows) =
           duplicateErrors j (rows ! j) (seenIdsAfter 0 Map.empty (take j rows))"
proof -
  have "filter (\<lambda>e. row e = j \<and> isDuplicateError e) (validateData env rows) =
          filter isDuplicateError (filter (\<lambda>e. row e = j) (validateData env rows))"
    by (simp add: conj_commute)
  also have "\<dots> = duplicateErrors j (rows ! j) (seenIdsAfter 0 Map.empty (take j rows))"
    using filter_row_validateRows [OF assms, of 0 env Map.empty]
    by (simp add: validateData_def filter_dup_duplicateErrors filter_dup_schemaErrors
        filter_dup_categoryError filter_dup_priorityError)
  finally show ?thesis .
qed

subsection \<open>Claim C7\<close>

text \<open>
  C7: take a row at position \<open>j\<close> with a non-empty \<^verbatim>\<open>case_id\<close>, and let \<open>i\<close> be the position of the
  first row with that \<^verbatim>\<open>case_id\<close>. If the row is a later occurrence (\<open>i < j\<close>), the error list
  holds exactly one duplicate-case-id error for row \<open>j\<close>, on the field \<^verbatim>\<open>case_id\<close>, and its
  message names the first occurrence as row \<open>i + 1\<close>. If the row is the first occurrence
  itself, the error list holds no duplicate-case-id error for it.
\<close>

theorem duplicate_case_id_flagged:
  assumes "j < length rows" and "case_id (rows ! j) \<noteq> []"
  shows "\<exists>i\<le>j. findIndex (\<lambda>r. case_id r = case_id (rows ! j)) rows = Some i
           \<and> filter (\<lambda>e. row e = j \<and> isDuplicateError e) (validateData env rows) =
               (if i < j
                then [\<lparr>row = j, errField = ''case_id'', errValue = Some (case_id (rows ! j)),
                       message = ''Duplicate case ID (first seen at row '' @ showNat (i + 1) @ '')''\<rparr>]
                else [])"
proof -
  let ?c = "case_id (rows ! j)"
  from findIndex_first [of j rows "\<lambda>r. case_id r = ?c"] assms(1)
  obtain i where i: "i \<le> j" "findIndex (\<lambda>r. case_id r = ?c) rows = Some i" by auto
  have seen: "seenIdsAfter 0 Map.empty (take j rows) ?c = (if i < j then Some i else None)"
    using seenIdsAfter_lookup [OF assms(2), of 0 Map.empty "take j rows"] findIndex_take [OF i(2), of j]
    by simp
  have "filter (\<lambda>e. row e = j \<and> isDuplicateError e) (validateData env rows) =
          duplicateErrors j (rows ! j) (seenIdsAfter 0 Map.empty (take j rows))"
    by (rule duplicates_of_row [OF assms(1)])
  also have "\<dots> = (if i < j
                then [\<lparr>row = j, errField = ''case_id'', errValue = Some ?c,
                       message = ''Duplicate case ID (first seen at row '' @ showNat (i + 1) @ '')''\<rparr>]
                else [])"
    using assms(2) seen by (simp add: duplicateErrors_def)
  finally show ?thesis using i by blast
qed

theorem duplicate_case_id_flagged_witness:
  "(2::nat) < length repeatedId \<and> case_id (repeatedId ! 2) \<noteq> []
   \<and> findIndex (\<lambda>r. case_id r = case_id (repeatedId ! 2)) repeatedId = Some 0
   \<and> filter (\<lambda>e. row e = 2 \<and> isDuplicateError e) (validateData sampleEnv repeatedId) =
       [\<lparr>row = 2, errField = ''case_id'', errValue = Some ''C-1'',
         message = ''Duplicate case ID (first seen at row 1)''\<rparr>]
   \<and> filter (\<lambda>e. row e = 0 \<and> isDuplicateError e) (validateData sampleEnv repeatedId) = []"
proof -
  have one: "showNat (Suc 0) = ''1''" by (simp add: showNat.simps)
  have "(2::nat) < length repeatedId" "case_id (repeatedId ! 2) \<noteq> []"
    "(0::nat) < length repeatedId" "case_id (repeatedId ! 0) \<noteq> []"
    by (simp_all add: repeatedId_def sampleRow_def)
  from duplicate_case_id_flagged [OF this(1,2), of sampleEnv]
    duplicate_case_id_flagged [OF this(3,4), of sampleEnv]
  show ?thesis
    by (simp add: repeatedId_def sampleRow_def one)
qed

subsection \<open>Claim C6\<close>

lemma map_const_segment: "list_all (\<lambda>x. f x = c) xs \<Longrightarrow> map f xs = replicate (length xs) c"
  by (induction xs) simp_all

lemma fieldRank_values:
  "fieldRank ''case_id'' = 0" "fieldRank ''applicant_name'' = 1" "fieldRank ''dob'' = 2"
  "fieldRank ''email'' = 3" "fieldRank ''phone'' = 4" "fieldRank ''category'' = 5"
  "fieldRank ''priority'' = 6"
  by (simp_all add: fieldRank_def)

lemma rank_duplicateErrors:
  "map (fieldRank \<circ> errField) (duplicateErrors k r seen) = replicate (length (duplicateErrors k r seen)) 0"
  by (rule map_const_segment, cases "seen (case_id r)")
    (simp_all add: duplicateErrors_def Let_def fieldRank_values cong del: if_weak_cong)

lemma rank_caseIdIssues:
  "map (fieldRank \<circ> mappedField \<circ> path) (caseIdIssues v) = replicate (length (caseIdIssues v)) 0"
  by (rule map_const_segment) (simp add: caseIdIssues_def mappedField_def fieldRank_values)

lemma rank_applicantNameIssues:
  "map (fieldRank \<circ> mappedField \<circ> path) (applicantNameIssues v) =
     replicate (length (applicantNameIssues v)) 1"
  by (rule map_const_segment) (simp add: applicantNameIssues_def mappedField_def fieldRank_values)

lemma rank_dobIssues:
  "map (fieldRank \<circ> mappedField \<circ> path) (dobIssues env v) = replicate (length (dobIssues env v)) 2"
  by (rule map_const_segment) (simp add: dobIssues_def mappedField_def fieldRank_values)

lemma rank_emailIssues:
  "map (fieldRank \<circ> mappedField \<circ> path) (emailIssues env v) = replicate (length (emailIssues env v)) 3"
  by (rule map_const_segment, cases v) (simp_all add: emailIssues_def mappedField_def fieldRank_values)

lemma rank_categoryIssues:
  "map (fieldRank \<circ> mappedField \<circ> path) (categoryIssues env v) =
     replicate (length (categoryIssues env v)) 5"
  by (rule map_const_segment) (simp add: categoryIssues_def mappedField_def fieldRank_values)

lemma rank_priorityIssues:
  "map (fieldRank \<circ> mappedField \<circ> path) (priorityIssues env v) =
     replicate (length (priorityIssues env v)) 6"
  by (rule map_const_segment, cases v) (simp_all add: priorityIssues_def mappedField_def fieldRank_values)

lemma sorted_replicate_append:
  "sorted ys \<Longrightarrow> list_all (\<lambda>y. a \<le> y) ys \<Longrightarrow> sorted (replicate n (a::nat) @ ys)"
  by (induction n) (auto simp: list_all_iff)

lemma bound_replicate_append:
  "a \<le> b \<Longrightarrow> list_all (\<lambda>y. b \<le> y) ys \<Longrightarrow> list_all (\<lambda>y. a \<le> y) (replicate n (b::nat) @ ys)"
  by (induction n) (auto simp: list_all_iff)

lemma sorted_schema_run:
  "sorted (map (fieldRank \<circ> errField) (duplicateErrors k r seen @ schemaErrors env k r))"
proof -
  let ?inp = "\<lparr>in_caseId = case_id r, in_applicantName = applicant_name r, in_dob = dob r,
           in_email = orUndefined (email r), in_phone = orUndefined (phone r),
           in_category = category r, in_priority = orUndefined (priority r)\<rparr>"
  have "map (fieldRank \<circ> errField) (schemaErrors env k r) =
          map (fieldRank \<circ> mappedField \<circ> path) (CaseSchema_issues env ?inp)"
    by (simp add: schemaErrors_def comp_def)
  also have "\<dots> =
      replicate (length (caseIdIssues (case_id r))) 0
      @ replicate (length (applicantNameIssues (applicant_name r))) 1
      @ replicate (length (dobIssues env (dob r))) 2
      @ replicate (length (emailIssues env (orUndefined (email r)))) 3
      @ replicate (length (categoryIssues env (category r))) 5
      @ replicate (length (priorityIssues env (orUndefined (priority r)))) 6 @ []"
    by (simp add: CaseSchema_issues_def phoneIssues_def rank_caseIdIssues rank_applicantNameIssues
        rank_dobIssues rank_emailIssues rank_categoryIssues rank_priorityIssues
        del: replicate_eq_replicate)
  finally have schema: "map (fieldRank \<circ> errField) (schemaErrors env k r) =
      replicate (length (caseIdIssues (case_id r))) 0
      @ replicate (length (applicantNameIssues (applicant_name r))) 1
      @ replicate (length (dobIssues env (dob r))) 2
      @ replicate (length (emailIssues env (orUndefined (email r)))) 3
      @ replicate (length (categoryIssues env (category r))) 5
      @ replicate (length (priorityIssues env (orUndefined (priority r)))) 6 @ []" .
  have "sorted (replicate (length (duplicateErrors k r seen)) 0
      @ replicate (length (caseIdIssues (case_id r))) 0
      @ replicate (length (applicantNameIssues (applicant_name r))) 1
      @ replicate (length (dobIssues env (dob r))) 2
      @ replicate (length (emailIssues env (orUndefined (email r)))) 3
      @ replicate (length (categoryIssues env (category r))) 5
      @ replicate (length (priorityIssues env (orUndefined (priority r)))) (6::nat) @ [])"
    by (intro sorted_replicate_append bound_replicate_append) simp_all
  then show ?thesis
    by (simp only: map_append rank_duplicateErrors schema)
qed

lemma sorted_enum_run:
  "sorted (map (fieldRank \<circ> errField) (categoryError k r @ priorityError k r))"
  by (simp add: categoryError_def priorityError_def fieldRank_values)

text \<open>
  C6, as stated, fails in its last part. The additional category check is pushed after all
  issues of the schema, among them the issue on \<^verbatim>\<open>priority\<close>: for a row whose category is "FOO"
  and whose priority is "BAR" the errors come on the fields category, priority, category,
  priority, so an error on \<^verbatim>\<open>priority\<close> precedes one on \<^verbatim>\<open>category\<close> within the row.
\<close>

theorem validateData_field_order_counterexample:
  "map errField (validateData sampleEnv wrongEnums) = [''category'', ''priority'', ''category'', ''priority'']
   \<and> map row (validateData sampleEnv wrongEnums) = [0, 0, 0, 0]
   \<and> \<not> rowThenFieldOrder (validateData sampleEnv wrongEnums)"
  by (simp add: rowThenFieldOrder_def fieldRank_values wrongEnums_def validateData_def sampleRow_def
      sampleEnv_def duplicateErrors_def schemaErrors_def categoryError_def priorityError_def
      CaseSchema_issues_def caseIdIssues_def applicantNameIssues_def dobIssues_def emailIssues_def
      phoneIssues_def categoryIssues_def priorityIssues_def orUndefined_def mappedField_def
      dobInRange_def matchesCaseId_def isCaseIdChar_def CategoryEnum_def PriorityEnum_def)

text \<open>
  C6 (amended): with the clock, the date parser and the schema library fixed, the Validator
  is a function of the row set: the error list it stores is that of the rows alone, and
  running it again on its own result changes nothing.
  The list is ordered by row index ascending. The errors of the row at position \<open>j\<close> are, in
  this order: the duplicate-case-id error, the issues of the schema, the additional category
  error, the additional priority error. The duplicate error and the schema issues together
  are in field-declaration order, and so are the two additional errors.
\<close>

theorem validateData_order:
  "validationErrors (runValidator env s) = validateData env (rawData s)
   \<and> runValidator env (runValidator env s) = runValidator env s
   \<and> sorted (map row (validateData env rows))
   \<and> (j < length rows \<longrightarrow>
        filter (\<lambda>e. row e = j) (validateData env rows) =
          duplicateErrors j (rows ! j) (seenIdsAfter 0 Map.empty (take j rows))
          @ schemaErrors env j (rows ! j) @ categoryError j (rows ! j) @ priorityError j (rows ! j))
   \<and> sorted (map (fieldRank \<circ> errField) (duplicateErrors k r seen @ schemaErrors env k r))
   \<and> sorted (map (fieldRank \<circ> errField) (categoryError k r @ priorityError k r))"
proof (intro conjI impI)
  show "validationErrors (runValidator env s) = validateData env (rawData s)"
    by (simp add: runValidator_def setValidationErrors_def)
  show "runValidator env (runValidator env s) = runValidator env s"
    by (simp add: runValidator_def setValidationErrors_def)
  show "sorted (map row (validateData env rows))"
    by (simp add: validateData_def sorted_row_validateRows)
  show "filter (\<lambda>e. row e = j) (validateData env rows) =
          duplicateErrors j (rows ! j) (seenIdsAfter 0 Map.empty (take j rows))
          @ schemaErrors env j (rows ! j) @ categoryError j (rows ! j) @ priorityError j (rows ! j)"
    if "j < length rows"
    using filter_row_validateRows [OF that, of 0 env Map.empty] by (simp add: validateData_def)
  show "sorted (map (fieldRank \<circ> errField) (duplicateErrors k r seen @ schemaErrors env k r))"
    by (rule sorted_schema_run)
  show "sorted (map (fieldRank \<circ> errField) (categoryError k r @ priorityError k r))"
    by (rule sorted_enum_run)
qed

theorem validateData_order_witness:
  "(2::nat) < length repeatedId
   \<and> sorted (map row (validateData sampleEnv repeatedId))
   \<and> filter (\<lambda>e. row e = 2) (validateData sampleEnv repeatedId) =
       [\<lparr>row = 2, errField = ''case_id'', errValue = Some ''C-1'',
         message = ''Duplicate case ID (first seen at row 1)''\<rparr>]"
proof -
  have one: "showNat (Suc 0) = ''1''" by (simp add: showNat.simps)
  have len: "(2::nat) < length repeatedId" by (simp add: repeatedId_def)
  from validateData_order [of sampleEnv initialState repeatedId 2] len show ?thesis
    by (simp add: one repeatedId_def sampleRow_def
      sampleEnv_def duplicateErrors_def schemaErrors_def categoryError_def priorityError_def
      CaseSchema_issues_def caseIdIssues_def applicantNameIssues_def dobIssues_def emailIssues_def
      phoneIssues_def categoryIssues_def priorityIssues_def orUndefined_def mappedField_def
      dobInRange_def matchesCaseId_def isCaseIdChar_def CategoryEnum_def PriorityEnum_def
      seenIdsStep_def)
qed

section \<open>Batch Submitter\<close>

lemma batchLoop_step:
  "i < totalB \<Longrightarrow>
   batchLoop w False rows iid totalB i acc =
     batchLoop w False rows iid totalB (Suc i) (batchStep w rows iid totalB i acc)"
proof -
  assume lt: "i < totalB"
  obtain sc fc st where acc: "acc = (sc, fc, st)" by (cases acc)
  show ?thesis
  proof (cases "postBatch w i (map toPayload (batchOf rows i))")
    case TransportFailure
    then show ?thesis
      using lt unfolding acc
      by (subst batchLoop.simps)
        (simp add: batchStep_def resultsOf_def Let_def failedResult_def comp_def)
  next
    case (Results rs)
    then show ?thesis
      using lt unfolding acc
      by (subst batchLoop.simps) (simp add: batchStep_def resultsOf_def Let_def)
  qed
qed

lemma batchLoop_done:
  "\<not> i < totalB \<Longrightarrow> batchLoop w c rows iid totalB i acc = acc"
  by (cases acc) (simp add: batchLoop.simps)

lemma batchLoop_cancelled:
  "batchLoop w True rows iid totalB i acc = acc"
  by (cases acc) (simp add: batchLoop.simps)

lemma batchLoop_fold:
  "batchLoop w False rows iid totalB i acc = fold (batchStep w rows iid totalB) [i..<totalB] acc"
proof (induction "totalB - i" arbitrary: i acc)
  case 0
  then show ?case by (simp add: batchLoop_done)
next
  case (Suc d)
  then have lt: "i < totalB" and d: "d = totalB - Suc i" by simp_all
  have "[i..<totalB] = i # [Suc i..<totalB]" using lt by (simp add: upt_rec)
  with Suc.hyps(1) [OF d] lt show ?case by (simp add: batchLoop_step)
qed


text \<open>What a run of iterations leaves behind.\<close>

lemma fold_batchStep_requests:
  "requests (snd (snd (fold (batchStep w rows iid totalB) ks (sc, fc, st)))) =
     requests st @ map (\<lambda>i. PostBatch (map toPayload (batchOf rows i)) iid) ks"
  by (induction ks arbitrary: sc fc st) (simp_all add: batchStep_def)

lemma fold_batchStep_results:
  "batchResults (store (snd (snd (fold (batchStep w rows iid totalB) ks (sc, fc, st))))) =
     batchResults (store st) @ concat (map (resultsOf w rows) ks)"
  by (induction ks arbitrary: sc fc st)
    (simp_all add: batchStep_def setProgress_def addBatchResults_def)

lemma fold_batchStep_success:
  "fst (fold (batchStep w rows iid totalB) ks (sc, fc, st)) =
     sc + sum_list (map (\<lambda>i. length (filter ok (resultsOf w rows i))) ks)"
  by (induction ks arbitrary: sc fc st) (simp_all add: batchStep_def)

lemma fold_batchStep_failed:
  "fst (snd (fold (batchStep w rows iid totalB) ks (sc, fc, st))) =
     fc + sum_list (map (\<lambda>i. length (filter (\<lambda>r. \<not> ok r) (resultsOf w rows i))) ks)"
  by (induction ks arbitrary: sc fc st) (simp_all add: batchStep_def)

lemma fold_batchStep_cancelState:
  "isCancelledState (snd (snd (fold (batchStep w rows iid totalB) ks (sc, fc, st)))) =
     (isCancelledState st \<or> list_ex (cancelPressedDuring w) ks)"
  by (induction ks arbitrary: sc fc st) (auto simp: batchStep_def)

lemma fold_batchStep_processed:
  "map_option processed (progress (store (snd (snd (fold (batchStep w rows iid totalB) (ks @ [k]) (sc, fc, st)))))) =
     Some (min (k * BATCH_SIZE + BATCH_SIZE) (length rows))"
  by (cases "fold (batchStep w rows iid totalB) ks (sc, fc, st)")
    (simp add: batchStep_def setProgress_def)

subsection \<open>Arithmetic of the batches\<close>

lemma totalBatchesOf_div: "totalBatchesOf n = (n + 99) div 100"
proof -
  have "\<lceil>real n / 100\<rceil> = \<lceil>real_of_int (int n) / real_of_int 100\<rceil>" by simp
  also have "\<dots> = - ((- int n) div 100)"
    by (simp only: ceiling_divide_eq_div)
  also have "\<dots> = (int n + 99) div 100" by linarith
  finally have "nat \<lceil>real n / 100\<rceil> = nat ((int n + 99) div 100)" by simp
  also have "\<dots> = (n + 99) div 100"
    by (simp add: nat_div_distrib nat_add_distrib)
  finally show ?thesis by (simp add: totalBatchesOf_def BATCH_SIZE_def)
qed

lemma batchOf_take_drop: "batchOf rows i = take BATCH_SIZE (drop (i * BATCH_SIZE) rows)"
proof (cases "i * BATCH_SIZE + BATCH_SIZE \<le> length rows")
  case True
  then have "batchOf rows i = drop (i * BATCH_SIZE) (take (i * BATCH_SIZE + BATCH_SIZE) rows)"
    by (simp add: batchOf_def slice_def Let_def min_def)
  then show ?thesis by (simp add: drop_take)
next
  case False
  then have "batchOf rows i = drop (i * BATCH_SIZE) rows"
    by (simp add: batchOf_def slice_def Let_def min_def)
  moreover from False have "length (drop (i * BATCH_SIZE) rows) \<le> BATCH_SIZE" by simp
  ultimately show ?thesis by simp
qed

lemma concat_batches: "concat (map (batchOf rows) [0..<m]) = take (m * BATCH_SIZE) rows"
proof (induction m)
  case 0
  then show ?case by simp
next
  case (Suc m)
  have "take (m * BATCH_SIZE) rows @ take BATCH_SIZE (drop (m * BATCH_SIZE) rows)
          = take (m * BATCH_SIZE + BATCH_SIZE) rows"
    by (simp add: take_add)
  with Suc show ?case by (simp add: batchOf_take_drop add.commute)
qed

lemma totalBatches_bounds:
  "length rows \<le> totalBatchesOf (length rows) * BATCH_SIZE"
  "totalBatchesOf (length rows) * BATCH_SIZE \<le> length rows + 99"
proof -
  let ?n = "length rows"
  have m: "(?n + 99) mod 100 < 100" by simp
  have d: "(?n + 99) div 100 * 100 + (?n + 99) mod 100 = ?n + 99" by simp
  from m d show "?n \<le> totalBatchesOf ?n * BATCH_SIZE"
    unfolding totalBatchesOf_div BATCH_SIZE_def by linarith
  from d show "totalBatchesOf ?n * BATCH_SIZE \<le> ?n + 99"
    unfolding totalBatchesOf_div BATCH_SIZE_def by linarith
qed

lemma length_batchOf:
  "length (batchOf rows i) = min BATCH_SIZE (length rows - i * BATCH_SIZE)"
  by (simp add: batchOf_take_drop)

lemma full_batch:
  assumes "Suc i < totalBatchesOf (length rows)"
  shows "length (batchOf rows i) = BATCH_SIZE"
proof -
  from assms have "(i + 2) * BATCH_SIZE \<le> totalBatchesOf (length rows) * BATCH_SIZE"
    by (simp add: BATCH_SIZE_def)
  with totalBatches_bounds(2) [of rows] have "i * BATCH_SIZE + BATCH_SIZE \<le> length rows"
    by (simp add: BATCH_SIZE_def)
  then show ?thesis by (simp add: length_batchOf)
qed

lemma last_batch:
  assumes "rows \<noteq> []" and "Suc i = totalBatchesOf (length rows)"
  shows "length (batchOf rows i) = length rows - i * BATCH_SIZE"
    and "0 < length rows - i * BATCH_SIZE" and "length rows - i * BATCH_SIZE \<le> BATCH_SIZE"
proof -
  from totalBatches_bounds [of rows] assms(2) [symmetric]
  have b: "length rows \<le> i * BATCH_SIZE + BATCH_SIZE" "i * BATCH_SIZE + BATCH_SIZE \<le> length rows + 99"
    by (simp_all add: BATCH_SIZE_def)
  from b(1) show "length rows - i * BATCH_SIZE \<le> BATCH_SIZE" by simp
  then show "length (batchOf rows i) = length rows - i * BATCH_SIZE"
    by (simp add: length_batchOf)
  from b(2) show "0 < length rows - i * BATCH_SIZE" by (simp add: BATCH_SIZE_def)
qed


subsection \<open>A run that is not left by the break\<close>

lemma startSubmission_unfold:
  assumes "rows \<noteq> []" and "createImport w (filenameOrDefault fname) (length rows) = Some iid"
  shows "startSubmission w False rows fname st =
    (let run = fold (batchStep w rows iid (totalBatchesOf (length rows))) [0..<totalBatchesOf (length rows)]
           (0, 0, st\<lparr>isCancelledState := False,
               requests := requests st @ [CreateImport (filenameOrDefault fname) (length rows)],
               store := setProgress (Some \<lparr>total = length rows, processed = 0, success = 0,
                 failed = 0, currentBatch = 0, totalBatches = totalBatchesOf (length rows)\<rparr>)
                   (setImportId iid (setIsSubmitting True (store st)))\<rparr>);
         st4 = snd (snd run)
     in st4\<lparr>requests := requests st4 @ [PatchImport iid ''COMPLETED'' (fst run) (fst (snd run))],
            store := setIsSubmitting False (store st4)\<rparr>)"
  using assms
  by (simp add: startSubmission_def Let_def batchLoop_fold split_beta)

lemma startSubmission_requests:
  assumes "rows \<noteq> []" and "createImport w (filenameOrDefault fname) (length rows) = Some iid"
  shows "requests (startSubmission w False rows fname st) =
     requests st @ [CreateImport (filenameOrDefault fname) (length rows)]
     @ map (\<lambda>i. PostBatch (map toPayload (batchOf rows i)) iid) [0..<totalBatchesOf (length rows)]
     @ [PatchImport iid ''COMPLETED''
          (sum_list (map (\<lambda>i. length (filter ok (resultsOf w rows i))) [0..<totalBatchesOf (length rows)]))
          (sum_list (map (\<lambda>i. length (filter (\<lambda>r. \<not> ok r) (resultsOf w rows i)))
             [0..<totalBatchesOf (length rows)]))]"
  by (simp add: startSubmission_unfold [OF assms] Let_def fold_batchStep_requests
      fold_batchStep_success fold_batchStep_failed)

lemma startSubmission_results:
  assumes "rows \<noteq> []" and "createImport w (filenameOrDefault fname) (length rows) = Some iid"
  shows "batchResults (store (startSubmission w False rows fname st)) =
     batchResults (store st) @ concat (map (resultsOf w rows) [0..<totalBatchesOf (length rows)])"
  by (simp add: startSubmission_unfold [OF assms] Let_def fold_batchStep_results
      setIsSubmitting_def setProgress_def setImportId_def)

lemma totalBatches_pos: "rows \<noteq> [] \<Longrightarrow> 0 < totalBatchesOf (length rows)"
  using totalBatches_bounds(1) [of rows] by (cases "totalBatchesOf (length rows)") auto

lemma startSubmission_processed:
  assumes "rows \<noteq> []" and "createImport w (filenameOrDefault fname) (length rows) = Some iid"
  shows "map_option processed (progress (store (startSubmission w False rows fname st))) =
     Some (length rows)"
proof -
  from totalBatches_pos [OF assms(1)] obtain m where m: "totalBatchesOf (length rows) = Suc m"
    by (cases "totalBatchesOf (length rows)") auto
  have "min (m * BATCH_SIZE + BATCH_SIZE) (length rows) = length rows"
    using totalBatches_bounds(1) [of rows] m by simp
  then show ?thesis
    using fold_batchStep_processed [of w rows iid "Suc m" "[0..<m]" m]
    by (simp add: startSubmission_unfold [OF assms] Let_def m setIsSubmitting_def)
qed

lemma startSubmission_cancelState:
  assumes "rows \<noteq> []" and "createImport w (filenameOrDefault fname) (length rows) = Some iid"
  shows "isCancelledState (startSubmission w False rows fname st) =
     list_ex (cancelPressedDuring w) [0..<totalBatchesOf (length rows)]"
  by (simp add: startSubmission_unfold [OF assms] Let_def fold_batchStep_cancelState)

lemma postedBatches_append: "postedBatches (xs @ ys) = postedBatches xs @ postedBatches ys"
  by (induction xs rule: postedBatches.induct) simp_all

lemma postedBatches_map: "postedBatches (map (\<lambda>i. PostBatch (f i) iid) ks) = map f ks"
  by (induction ks) simp_all


lemma sorted_validRows:
  assumes "map u_rowIndex (rawData s) = map JNum [0..<length (rawData s)]"
  shows "sorted_wrt (<) (map rowIndexNumber (validRows s))"
proof -
  have "map rowIndexNumber (rawData s) =
          map (\<lambda>v. case v of JNum n \<Rightarrow> n | JStr x \<Rightarrow> 0) (map u_rowIndex (rawData s))"
    by (simp add: rowIndexNumber_def comp_def)
  also have "\<dots> = [0..<length (rawData s)]"
    by (simp add: assms comp_def map_idI)
  finally have "sorted_wrt (<) (map rowIndexNumber (rawData s))" by simp
  then have "sorted_wrt (\<lambda>a b. rowIndexNumber a < rowIndexNumber b) (rawData s)"
    by (simp add: sorted_wrt_map)
  then have "sorted_wrt (\<lambda>a b. rowIndexNumber a < rowIndexNumber b) (validRows s)"
    unfolding validRows_def by (rule sorted_wrt_filter)
  then show ?thesis by (simp add: sorted_wrt_map)
qed

lemma fresh_requests:
  assumes "rows \<noteq> []" and "createImport w (filenameOrDefault fname) (length rows) = Some iid"
  shows "postedBatches (drop (length (requests st)) (requests (startSubmission w False rows fname st))) =
     map (\<lambda>i. map toPayload (batchOf rows i)) [0..<totalBatchesOf (length rows)]"
  by (simp add: startSubmission_requests [OF assms] postedBatches_append postedBatches_map)

subsection \<open>Claim C4\<close>

text \<open>
  C4: a run over \<open>n\<close> error-free rows that creates its import record and is not left by the
  \<^verbatim>\<open>break\<close> sends, after the request for the import record and before the final update, one
  batch request after the other for the batches with index 0 up to \<open>ceil (n / 100)\<close>. Batch
  \<open>i\<close> holds the 100 rows from position \<open>100 * i\<close> on, fewer in the last batch, which is not
  empty; the batches in sequence are the rows themselves, so for a freshly installed row set
  they go by ascending row index. When the loop ends the \<^verbatim>\<open>processed\<close> counter is \<open>n\<close>,
  whatever the outcomes of the batches were. For 250 rows the batches have 100, 100 and 50
  rows.
\<close>

theorem batches_partition:
  assumes "rows \<noteq> []" and "createImport w (filenameOrDefault fname) (length rows) = Some iid"
  shows
    "requests (startSubmission w False rows fname st) =
       requests st @ [CreateImport (filenameOrDefault fname) (length rows)]
       @ map (\<lambda>i. PostBatch (map toPayload (batchOf rows i)) iid) [0..<totalBatchesOf (length rows)]
       @ [PatchImport iid ''COMPLETED''
            (sum_list (map (\<lambda>i. length (filter ok (resultsOf w rows i))) [0..<totalBatchesOf (length rows)]))
            (sum_list (map (\<lambda>i. length (filter (\<lambda>r. \<not> ok r) (resultsOf w rows i)))
               [0..<totalBatchesOf (length rows)]))]
     \<and> totalBatchesOf (length rows) = nat \<lceil>real (length rows) / 100\<rceil>
     \<and> concat (map (batchOf rows) [0..<totalBatchesOf (length rows)]) = rows
     \<and> batchOf rows i = take 100 (drop (i * 100) rows)
     \<and> (Suc i < totalBatchesOf (length rows) \<longrightarrow> length (batchOf rows i) = 100)
     \<and> (Suc l = totalBatchesOf (length rows) \<longrightarrow>
          length (batchOf rows l) = length rows - l * 100
          \<and> 0 < length rows - l * 100 \<and> length rows - l * 100 \<le> 100)
     \<and> map_option processed (progress (store (startSubmission w False rows fname st))) = Some (length rows)
     \<and> (length rows = 250 \<longrightarrow>
          map length (postedBatches (drop (length (requests st))
            (requests (startSubmission w False rows fname st)))) = [100, 100, 50])
     \<and> (rows = validRows s \<and> map u_rowIndex (rawData s) = map JNum [0..<length (rawData s)] \<longrightarrow>
          sorted_wrt (<) (map rowIndexNumber (concat (map (batchOf rows) [0..<totalBatchesOf (length rows)]))))"
proof -
  have cover: "concat (map (batchOf rows) [0..<totalBatchesOf (length rows)]) = rows"
    using totalBatches_bounds(1) [of rows] by (simp add: concat_batches)
  have ex: "map length (postedBatches (drop (length (requests st))
            (requests (startSubmission w False rows fname st)))) = [100, 100, 50]"
    if n: "length rows = 250"
  proof -
    have tb: "totalBatchesOf (length rows) = 3" by (simp add: n totalBatchesOf_div)
    have upt: "[0..<3] = [0, 1, 2::nat]" by (simp add: upt_rec)
    have "map length (map (\<lambda>i. map toPayload (batchOf rows i)) [0..<3]) = [100, 100, 50]"
      unfolding upt by (simp add: length_batchOf n BATCH_SIZE_def)
    then show ?thesis
      by (simp only: fresh_requests [OF assms] tb)
  qed
  have ord: "sorted_wrt (<) (map rowIndexNumber (concat (map (batchOf rows) [0..<totalBatchesOf (length rows)])))"
    if "rows = validRows s" "map u_rowIndex (rawData s) = map JNum [0..<length (rawData s)]"
    unfolding cover using sorted_validRows [OF that(2)] that(1) by simp
  show ?thesis
    using startSubmission_requests [OF assms, of st] cover batchOf_take_drop [of rows i]
      full_batch [of i rows] last_batch [OF assms(1), of l] startSubmission_processed [OF assms, of st]
      ex ord
    by (simp add: BATCH_SIZE_def totalBatchesOf_def)
qed


lemma validRows_no_errors: "validationErrors s = [] \<Longrightarrow> validRows s = rawData s"
  by (simp add: validRows_def)

lemma manyRows_facts:
  "validRows manyRows = rawData manyRows" "length (rawData manyRows) = 250"
  "map u_rowIndex (rawData manyRows) = map JNum [0..<length (rawData manyRows)]"
  "filename manyRows = Some ''cases.csv''" "rawData manyRows \<noteq> []"
proof -
  show "validRows manyRows = rawData manyRows"
    by (rule validRows_no_errors) (simp add: manyRows_def setRawData_def)
  show len: "length (rawData manyRows) = 250"
    by (simp add: manyRows_def setRawData_def length_assignRowIndex)
  show "map u_rowIndex (rawData manyRows) = map JNum [0..<length (rawData manyRows)]"
    unfolding len by (simp add: manyRows_def setRawData_def map_rowIndex_assign)
  show "filename manyRows = Some ''cases.csv''"
    by (simp add: manyRows_def setRawData_def)
  from len show "rawData manyRows \<noteq> []" by auto
qed

theorem batches_partition_witness:
  "validRows manyRows \<noteq> []
   \<and> createImport flakyWorld (filenameOrDefault (filename manyRows)) (length (validRows manyRows)) = Some ''imp-1''
   \<and> Suc 0 < totalBatchesOf (length (validRows manyRows))
   \<and> Suc 2 = totalBatchesOf (length (validRows manyRows))
   \<and> length (validRows manyRows) = 250
   \<and> map u_rowIndex (rawData manyRows) = map JNum [0..<length (rawData manyRows)]
   \<and> map length (postedBatches
        (requests (startSubmission flakyWorld False (validRows manyRows) (filename manyRows) readyMany)))
       = [100, 100, 50]
   \<and> length (batchOf (validRows manyRows) 0) = 100
   \<and> length (batchOf (validRows manyRows) 2) = 50
   \<and> map_option processed (progress (store
        (startSubmission flakyWorld False (validRows manyRows) (filename manyRows) readyMany))) = Some 250"
proof -
  have ne: "validRows manyRows \<noteq> []" by (simp add: manyRows_facts)
  have cr: "createImport flakyWorld (filenameOrDefault (filename manyRows)) (length (validRows manyRows))
      = Some ''imp-1''"
    by (simp add: flakyWorld_def)
  have tb: "totalBatchesOf (length (validRows manyRows)) = 3"
    by (simp add: manyRows_facts totalBatchesOf_div)
  have n: "length (validRows manyRows) = 250" by (simp add: manyRows_facts)
  have idx: "map u_rowIndex (rawData manyRows) = map JNum [0..<length (rawData manyRows)]"
    by (rule manyRows_facts)
  have i: "Suc 0 < totalBatchesOf (length (validRows manyRows))"
    and l: "Suc 2 = totalBatchesOf (length (validRows manyRows))"
    by (simp_all add: tb)
  have nil: "drop (length (requests readyMany)) xs = xs" for xs :: "Request list"
    by (simp add: readyMany_def)
  note T = batches_partition [OF ne cr, of readyMany 0 2 manyRows, unfolded nil]
  from T i have b0: "length (batchOf (validRows manyRows) 0) = 100" by blast
  from T l have b2: "length (batchOf (validRows manyRows) 2) = length (validRows manyRows) - 2 * 100"
    by blast
  from T n have ex: "map length (postedBatches
        (requests (startSubmission flakyWorld False (validRows manyRows) (filename manyRows) readyMany)))
       = [100, 100, 50]" by blast
  from T have pr: "map_option processed (progress (store
        (startSubmission flakyWorld False (validRows manyRows) (filename manyRows) readyMany)))
      = Some (length (validRows manyRows))" by blast
  from ne cr i l n idx ex b0 b2 pr show ?thesis by (simp only: n) simp
qed

subsection \<open>Claim C5\<close>

text \<open>
  C5: when the request of batch \<open>k\<close> fails in transport, the results accumulated by the run
  hold, between the results of the batches before and after it, one failed result for every
  row of batch \<open>k\<close>, with the row's case identifier and the message
  "Network error - please retry". The run goes on: all batches are posted, batch \<open>k + 1\<close>
  among them, and the import record is closed as completed.
\<close>

theorem transport_failure_isolated:
  assumes "rows \<noteq> []" and "createImport w (filenameOrDefault fname) (length rows) = Some iid"
    and "k < totalBatchesOf (length rows)"
    and "postBatch w k (map toPayload (batchOf rows k)) = TransportFailure"
  shows
    "batchResults (store (startSubmission w False rows fname st)) =
       batchResults (store st) @ concat (map (resultsOf w rows) [0..<k])
       @ map failedResult (batchOf rows k)
       @ concat (map (resultsOf w rows) [Suc k..<totalBatchesOf (length rows)])
     \<and> list_all (\<lambda>r. \<not> ok r \<and> error r = Some ''Network error - please retry'')
          (map failedResult (batchOf rows k))
     \<and> map caseId (map failedResult (batchOf rows k)) = map case_id (batchOf rows k)
     \<and> postedBatches (drop (length (requests st)) (requests (startSubmission w False rows fname st))) =
         map (\<lambda>i. map toPayload (batchOf rows i)) [0..<totalBatchesOf (length rows)]
     \<and> (Suc k < totalBatchesOf (length rows) \<longrightarrow>
          postedBatches (drop (length (requests st)) (requests (startSubmission w False rows fname st)))
            ! Suc k = map toPayload (batchOf rows (Suc k)))
     \<and> patchStatus (last (requests (startSubmission w False rows fname st))) = Some ''COMPLETED''"
proof -
  let ?tb = "totalBatchesOf (length rows)"
  have "[0..<?tb] = [0..<k] @ k # [Suc k..<?tb]"
    using assms(3) by (metis le0 upt_add_eq_append upt_conv_Cons le_add_diff_inverse less_imp_le_nat add.left_neutral)
  moreover have "resultsOf w rows k = map failedResult (batchOf rows k)"
    by (simp add: resultsOf_def assms(4))
  ultimately have "batchResults (store (startSubmission w False rows fname st)) =
       batchResults (store st) @ concat (map (resultsOf w rows) [0..<k])
       @ map failedResult (batchOf rows k)
       @ concat (map (resultsOf w rows) [Suc k..<?tb])"
    by (simp add: startSubmission_results [OF assms(1,2)])
  moreover have "list_all (\<lambda>r. \<not> ok r \<and> error r = Some ''Network error - please retry'')
          (map failedResult (batchOf rows k))"
    by (simp add: list_all_iff failedResult_def)
  moreover have "map caseId (map failedResult (batchOf rows k)) = map case_id (batchOf rows k)"
    by (simp add: failedResult_def comp_def)
  moreover note fresh_requests [OF assms(1,2), of st]
  moreover have "patchStatus (last (requests (startSubmission w False rows fname st))) = Some ''COMPLETED''"
    by (simp add: startSubmission_requests [OF assms(1,2)])
  ultimately show ?thesis by simp
qed

theorem transport_failure_isolated_witness:
  "validRows manyRows \<noteq> []
   \<and> createImport flakyWorld (filenameOrDefault (filename manyRows)) (length (validRows manyRows)) = Some ''imp-1''
   \<and> Suc 0 < totalBatchesOf (length (validRows manyRows))
   \<and> postBatch flakyWorld (Suc 0) (map toPayload (batchOf (validRows manyRows) (Suc 0))) = TransportFailure
   \<and> Suc (Suc 0) < totalBatchesOf (length (validRows manyRows))
   \<and> postedBatches
        (requests (startSubmission flakyWorld False (validRows manyRows) (filename manyRows) readyMany))
          ! Suc (Suc 0)
       = map toPayload (batchOf (validRows manyRows) (Suc (Suc 0)))
   \<and> length (batchOf (validRows manyRows) (Suc 0)) = 100
   \<and> length (batchResults (store
        (startSubmission flakyWorld False (validRows manyRows) (filename manyRows) readyMany))) = 250"
proof -
  have ne: "validRows manyRows \<noteq> []" by (simp add: manyRows_facts)
  have cr: "createImport flakyWorld (filenameOrDefault (filename manyRows)) (length (validRows manyRows))
      = Some ''imp-1''"
    by (simp add: flakyWorld_def)
  have tb: "totalBatchesOf (length (validRows manyRows)) = Suc (Suc (Suc 0))"
    by (simp add: manyRows_facts totalBatchesOf_div)
  have k: "Suc 0 < totalBatchesOf (length (validRows manyRows))"
    and k2: "Suc (Suc 0) < totalBatchesOf (length (validRows manyRows))"
    by (simp_all add: tb)
  have tf: "postBatch flakyWorld (Suc 0) (map toPayload (batchOf (validRows manyRows) (Suc 0))) = TransportFailure"
    by (simp add: flakyWorld_def)
  have lens: "length (resultsOf flakyWorld (validRows manyRows) 0) = 100"
    "length (resultsOf flakyWorld (validRows manyRows) (Suc (Suc 0))) = 50"
    "length (batchOf (validRows manyRows) (Suc 0)) = 100"
    by (simp_all add: resultsOf_def flakyWorld_def acceptAll_def length_batchOf manyRows_facts BATCH_SIZE_def)
  have nil: "drop (length (requests readyMany)) xs = xs" for xs :: "Request list"
    by (simp add: readyMany_def)
  have old: "batchResults (store readyMany) = []"
    by (simp add: readyMany_def manyRows_def setRawData_def)
  note T = transport_failure_isolated [OF ne cr k tf, of readyMany, unfolded nil old]
  from T k2 have nxt: "postedBatches
        (requests (startSubmission flakyWorld False (validRows manyRows) (filename manyRows) readyMany))
          ! Suc (Suc 0)
       = map toPayload (batchOf (validRows manyRows) (Suc (Suc 0)))"
    by blast
  from T have res: "batchResults (store
        (startSubmission flakyWorld False (validRows manyRows) (filename manyRows) readyMany)) =
       [] @ concat (map (resultsOf flakyWorld (validRows manyRows)) [0..<Suc 0])
       @ map failedResult (batchOf (validRows manyRows) (Suc 0))
       @ concat (map (resultsOf flakyWorld (validRows manyRows))
           [Suc (Suc 0)..<totalBatchesOf (length (validRows manyRows))])"
    by blast
  have len: "length (batchResults (store
        (startSubmission flakyWorld False (validRows manyRows) (filename manyRows) readyMany))) = 250"
    unfolding res tb by (simp add: lens upt_rec)
  from ne cr k tf k2 nxt len lens(3) show ?thesis by blast
qed


subsection \<open>Claims C2 and C1\<close>

lemma fold_batchStep_frame:
  "rawData (store (snd (snd (fold (batchStep w rows iid totalB) ks (sc, fc, st))))) = rawData (store st)
   \<and> validationErrors (store (snd (snd (fold (batchStep w rows iid totalB) ks (sc, fc, st)))))
       = validationErrors (store st)
   \<and> filename (store (snd (snd (fold (batchStep w rows iid totalB) ks (sc, fc, st))))) = filename (store st)"
  by (induction ks arbitrary: sc fc st)
    (simp_all add: batchStep_def setProgress_def addBatchResults_def)

lemma startSubmission_frame:
  assumes "rows \<noteq> []" and "createImport w (filenameOrDefault fname) (length rows) = Some iid"
  shows "rawData (store (startSubmission w False rows fname st)) = rawData (store st)"
    and "validationErrors (store (startSubmission w False rows fname st)) = validationErrors (store st)"
    and "filename (store (startSubmission w False rows fname st)) = filename (store st)"
  by (simp_all add: startSubmission_unfold [OF assms] Let_def fold_batchStep_frame
      setIsSubmitting_def setProgress_def setImportId_def)

lemma startSubmission_stale_cancel:
  assumes "rows \<noteq> []" and "createImport w (filenameOrDefault fname) (length rows) = Some iid"
  shows "requests (startSubmission w True rows fname st) =
     requests st @ [CreateImport (filenameOrDefault fname) (length rows), PatchImport iid ''FAILED'' 0 0]"
  using assms by (simp add: startSubmission_def Let_def batchLoop_cancelled)

lemma set_batchOf: "set (batchOf rows i) \<subseteq> set rows"
  unfolding batchOf_take_drop by (meson set_take_subset set_drop_subset subset_trans)

text \<open>
  C2 does not hold on the code. The loop tests the constant \<^verbatim>\<open>isCancelled\<close> of the render whose
  callback is running, and \<^verbatim>\<open>cancelSubmission\<close> sets the React state, which only later renders
  see. With 250 rows and Cancel pressed while the first batch is in flight, the run still
  posts all three batches and closes the import record as COMPLETED, although the state says
  cancelled at the end. The press of the retry button that follows runs a callback whose
  constant is true: it creates an import record, posts no batch and closes the record as
  FAILED.
\<close>

theorem cancel_request_not_observed:
  "cancelPressedDuring flakyWorld 0
   \<and> \<not> isCancelledState readyMany
   \<and> map length (postedBatches (requests (pressStart flakyWorld readyMany))) = [100, 100, 50]
   \<and> patchStatus (last (requests (pressStart flakyWorld readyMany))) = Some ''COMPLETED''
   \<and> isCancelledState (pressStart flakyWorld readyMany)
   \<and> drop (length (requests (pressStart flakyWorld readyMany)))
        (requests (pressRetry flakyWorld (pressStart flakyWorld readyMany))) =
       [CreateImport ''cases.csv'' 250, PatchImport ''imp-1'' ''FAILED'' 0 0]"
proof -
  let ?rows = "validRows manyRows"
  let ?st1 = "pressStart flakyWorld readyMany"
  have ne: "?rows \<noteq> []" by (simp add: manyRows_facts)
  have cr: "createImport flakyWorld (filenameOrDefault (filename manyRows)) (length ?rows) = Some ''imp-1''"
    by (simp add: flakyWorld_def)
  have n: "length ?rows = 250" by (simp add: manyRows_facts)
  have tb: "totalBatchesOf (length ?rows) = Suc (Suc (Suc 0))"
    by (simp add: n totalBatchesOf_div)
  have first: "?st1 = startSubmission flakyWorld False ?rows (filename manyRows) readyMany"
    by (simp add: pressStart_def readyMany_def)
  have nil: "drop (length (requests readyMany)) xs = xs" for xs :: "Request list"
    by (simp add: readyMany_def)
  have "map length (map (\<lambda>i. map toPayload (batchOf ?rows i)) [0..<Suc (Suc (Suc 0))]) = [100, 100, 50]"
    by (simp add: upt_rec length_batchOf n BATCH_SIZE_def)
  with fresh_requests [OF ne cr, of readyMany]
  have posted: "map length (postedBatches (requests ?st1)) = [100, 100, 50]"
    by (simp only: first nil tb)
  have status: "patchStatus (last (requests ?st1)) = Some ''COMPLETED''"
    by (simp add: first startSubmission_requests [OF ne cr])
  have "list_ex (cancelPressedDuring flakyWorld) [0..<Suc (Suc (Suc 0))]"
    by (simp add: upt_rec flakyWorld_def)
  then have flag: "isCancelledState ?st1"
    by (simp only: first startSubmission_cancelState [OF ne cr] tb)
  have kept: "rawData (store ?st1) = rawData manyRows"
    "validationErrors (store ?st1) = validationErrors manyRows"
    "filename (store ?st1) = filename manyRows"
    unfolding first startSubmission_frame [OF ne cr] by (simp_all add: readyMany_def)
  then have valid: "validRows (store ?st1) = ?rows" by (simp add: validRows_def)
  have "length (batchOf ?rows (Suc 0)) = 100"
    by (simp add: length_batchOf n BATCH_SIZE_def)
  then obtain r where r: "r \<in> set (batchOf ?rows (Suc 0))"
    by (cases "batchOf ?rows (Suc 0)") auto
  with set_batchOf [of ?rows "Suc 0"] have r_row: "r \<in> set (rawData manyRows)"
    by (auto simp: manyRows_facts)
  have "resultsOf flakyWorld ?rows (Suc 0) = map failedResult (batchOf ?rows (Suc 0))"
    by (simp add: resultsOf_def flakyWorld_def)
  with r have "failedResult r \<in> set (batchResults (store ?st1))"
    unfolding first startSubmission_results [OF ne cr] tb by (simp add: upt_rec)
  then have "case_id r \<in> set (map caseId (filter (\<lambda>b. \<not> ok b) (batchResults (store ?st1))))"
    by (force simp: failedResult_def)
  with r_row have some: "filter (\<lambda>r. case_id r \<in> set (map caseId (filter (\<lambda>b. \<not> ok b)
      (batchResults (store ?st1))))) (rawData manyRows) \<noteq> []"
    by (auto simp: filter_empty_conv)
  have retry: "pressRetry flakyWorld ?st1 = startSubmission flakyWorld True ?rows (filename manyRows) ?st1"
    using flag some by (simp add: pressRetry_def retryFailed_def valid kept)
  have again: "drop (length (requests ?st1)) (requests (pressRetry flakyWorld ?st1)) =
       [CreateImport ''cases.csv'' 250, PatchImport ''imp-1'' ''FAILED'' 0 0]"
    unfolding retry startSubmission_stale_cancel [OF ne cr]
    by (simp add: n manyRows_facts filenameOrDefault_def)
  have "cancelPressedDuring flakyWorld 0" "\<not> isCancelledState readyMany"
    by (simp_all add: flakyWorld_def readyMany_def)
  with posted status flag again show ?thesis by blast
qed

lemma twoRows_facts:
  "rawData twoRows =
     [(sampleRow ''C-1'' ''Ann'')\<lparr>u_rowIndex := JNum 0\<rparr>, (sampleRow ''C-2'' ''Bob'')\<lparr>u_rowIndex := JNum 1\<rparr>]"
  "validationErrors twoRows = []" "filename twoRows = Some ''cases.csv''" "batchResults twoRows = []"
  by (simp_all add: twoRows_def setRawData_def)

text \<open>
  C1 does not hold on the code. \<^verbatim>\<open>retryFailed\<close> computes the rows to retry only to test that
  there are some, and then calls \<^verbatim>\<open>startSubmission\<close>, which works on all valid rows. After a
  first run in which "C-1" succeeded and "C-2" failed, the retry posts a batch with both
  cases.
\<close>

theorem retry_resubmits_all_valid_rows:
  "map caseId (filter ok (batchResults (store (pressStart rejectingWorld readyTwo)))) = [''C-1'']
   \<and> map caseId (filter (\<lambda>r. \<not> ok r) (batchResults (store (pressStart rejectingWorld readyTwo)))) = [''C-2'']
   \<and> map (map p_caseId)
        (postedBatches (drop (length (requests (pressStart rejectingWorld readyTwo)))
          (requests (pressRetry rejectingWorld (pressStart rejectingWorld readyTwo)))))
       = [[''C-1'', ''C-2'']]"
proof -
  let ?w = rejectingWorld
  let ?rows = "validRows twoRows"
  let ?st1 = "pressStart ?w readyTwo"
  have rows: "?rows = rawData twoRows" by (simp add: validRows_no_errors twoRows_facts)
  have ne: "?rows \<noteq> []" by (simp add: rows twoRows_facts)
  have cr: "createImport ?w (filenameOrDefault (filename twoRows)) (length ?rows) = Some ''imp-1''"
    by (simp add: rejectingWorld_def)
  have tb: "totalBatchesOf (length ?rows) = Suc 0"
    by (simp add: rows twoRows_facts totalBatchesOf_div)
  have batch: "batchOf ?rows 0 = ?rows"
    by (simp add: batchOf_take_drop rows twoRows_facts BATCH_SIZE_def)
  have first: "?st1 = startSubmission ?w False ?rows (filename twoRows) readyTwo"
    by (simp add: pressStart_def readyTwo_def)
  have res: "batchResults (store ?st1) = resultsOf ?w ?rows 0"
    unfolding first startSubmission_results [OF ne cr] tb
    by (simp add: readyTwo_def twoRows_facts)
  have res0: "resultsOf ?w ?rows 0 =
      [\<lparr>ok = True, caseId = ''C-1'', error = None, createdId = Some ''created''\<rparr>,
       \<lparr>ok = False, caseId = ''C-2'', error = Some ''Case ID already exists'', createdId = None\<rparr>]"
    unfolding resultsOf_def batch
    by (simp add: rows twoRows_facts rejectingWorld_def toPayload_def sampleRow_def)
  have flag: "\<not> isCancelledState ?st1"
    unfolding first startSubmission_cancelState [OF ne cr] tb
    by (simp add: rejectingWorld_def)
  have kept: "rawData (store ?st1) = rawData twoRows"
    "validationErrors (store ?st1) = validationErrors twoRows"
    "filename (store ?st1) = filename twoRows"
    unfolding first startSubmission_frame [OF ne cr] by (simp_all add: readyTwo_def)
  then have valid: "validRows (store ?st1) = ?rows" by (simp add: validRows_def)
  have retry: "pressRetry ?w ?st1 = startSubmission ?w False ?rows (filename twoRows) ?st1"
    unfolding pressRetry_def retryFailed_def valid kept res res0
    using flag by (simp add: twoRows_facts sampleRow_def)
  have "postedBatches (drop (length (requests ?st1)) (requests (pressRetry ?w ?st1))) =
      [map toPayload ?rows]"
    unfolding retry fresh_requests [OF ne cr] tb by (simp add: batch)
  then have "map (map p_caseId)
        (postedBatches (drop (length (requests ?st1)) (requests (pressRetry ?w ?st1))))
       = [[''C-1'', ''C-2'']]"
    by (simp add: rows twoRows_facts toPayload_def sampleRow_def)
  then show ?thesis by (simp add: res res0)
qed

end
